theory Spec2Isabelle
  imports Main "HOL-Library.Multiset"
begin

section \<open>Text\<close>

text \<open>
  A Python string is a sequence of Unicode code points; \<open>str\<close> gives the code points of
  an ASCII literal.
\<close>

type_synonym ustring = "nat list"

definition str :: "string \<Rightarrow> ustring" where
  "str cs = map of_char cs"

section \<open>Order records\<close>

text \<open>
  The program keeps an order as a dictionary with the keys \<open>order_id\<close>, \<open>customer\<close> and
  \<open>items\<close>, and an item as a dictionary with the keys \<open>name\<close>, \<open>price\<close> and \<open>quantity\<close>
  (\<open>add_order\<close>, lines 83 and 87-91). Prices and quantities are Python integers, which are
  unbounded.
\<close>

record item =
  name :: ustring
  price :: int
  quantity :: int

record order =
  order_id :: ustring
  customer :: ustring
  items :: "item list"

section \<open>Text handling of the standard library\<close>

text \<open>
  \<open>str.strip\<close>, \<open>str.upper\<close> and \<open>int\<close> are functions of the interpreter. What they do
  with the ASCII characters (the code points below 128) is written out below. What they do
  with the other code points is decided by tables of the Unicode character database that
  the interpreter was built with; these tables are not part of the program, and they are
  taken as a parameter: for a code point from 128 on, \<open>space_other\<close> says whether it is
  white space, \<open>decimal_other\<close> gives its value if it is a decimal digit, and \<open>upper_other\<close>
  gives the code points of its upper-case form. Everything below holds for every such
  tables.
\<close>

record unicode =
  space_other :: "nat \<Rightarrow> bool"
  decimal_other :: "nat \<Rightarrow> nat option"
  upper_other :: "nat \<Rightarrow> ustring"

text \<open>
  \<open>strip\<close> is \<open>str.strip()\<close>: it removes the white space at both ends. The ASCII white
  space is tab, line feed, vertical tab, form feed, carriage return, the four separators
  28-31 and the space.
\<close>

definition is_space :: "unicode \<Rightarrow> nat \<Rightarrow> bool" where
  "is_space U c \<longleftrightarrow>
     (if c < 128 then c \<in> set [9, 10, 11, 12, 13, 28, 29, 30, 31, 32] else space_other U c)"

definition strip :: "unicode \<Rightarrow> ustring \<Rightarrow> ustring" where
  "strip U s = rev (dropWhile (is_space U) (rev (dropWhile (is_space U) s)))"

text \<open>
  \<open>upper\<close> is \<open>str.upper()\<close>: every code point is replaced by its upper-case form, which
  can be more than one code point. The letters a-z become A-Z, and the other ASCII
  characters stay.
\<close>

definition upper_char :: "unicode \<Rightarrow> nat \<Rightarrow> ustring" where
  "upper_char U c =
     (if c < 128 then (if 97 \<le> c \<and> c \<le> 122 then [c - 32] else [c]) else upper_other U c)"

definition upper :: "unicode \<Rightarrow> ustring \<Rightarrow> ustring" where
  "upper U s = concat (map (upper_char U) s)"

text \<open>
  \<open>py_int\<close> is the built-in \<open>int(text)\<close> in base 10. White space at both ends is skipped;
  here the ASCII white space is tab, line feed, vertical tab, form feed, carriage return
  and the space only (the separators 28-31 are not skipped). One sign may lead, and the
  digits, ASCII or not, may be grouped by single underscores. \<open>None\<close> stands for the
  \<open>ValueError\<close> that \<open>int\<close> raises on any other text. The bound that recent interpreters
  put on the number of digits of the text (4300 unless configured) is not modelled.
\<close>

definition int_space :: "unicode \<Rightarrow> nat \<Rightarrow> bool" where
  "int_space U c \<longleftrightarrow>
     (if c < 128 then c \<in> set [9, 10, 11, 12, 13, 32] else space_other U c)"

definition digit_val :: "unicode \<Rightarrow> nat \<Rightarrow> nat option" where
  "digit_val U c =
     (if c < 128 then (if 48 \<le> c \<and> c \<le> 57 then Some (c - 48) else None)
      else if space_other U c then None
      else decimal_other U c)"

fun parse_digits :: "unicode \<Rightarrow> nat \<Rightarrow> ustring \<Rightarrow> nat option" where
  "parse_digits U acc [] = Some acc"
| "parse_digits U acc (c # cs) =
     (if c = 95 then
        (case cs of
           [] \<Rightarrow> None
         | d # ds \<Rightarrow> (case digit_val U d of
                        None \<Rightarrow> None
                      | Some v \<Rightarrow> parse_digits U (10 * acc + v) ds))
      else (case digit_val U c of
              None \<Rightarrow> None
            | Some v \<Rightarrow> parse_digits U (10 * acc + v) cs))"

definition parse_nat :: "unicode \<Rightarrow> ustring \<Rightarrow> nat option" where
  "parse_nat U s =
     (case s of
        [] \<Rightarrow> None
      | c # cs \<Rightarrow> (case digit_val U c of None \<Rightarrow> None | Some v \<Rightarrow> parse_digits U v cs))"

definition py_int :: "unicode \<Rightarrow> ustring \<Rightarrow> int option" where
  "py_int U s =
     (case rev (dropWhile (int_space U) (rev (dropWhile (int_space U) s))) of
        [] \<Rightarrow> None
      | c # cs \<Rightarrow>
          if c = 45 then map_option (\<lambda>n. - int n) (parse_nat U cs)
          else if c = 43 then map_option int (parse_nat U cs)
          else map_option int (parse_nat U (c # cs)))"

section \<open>Exceptions, messages and output\<close>

text \<open>
  The exceptions the program can meet. \<open>json.JSONDecodeError\<close> and \<open>UnicodeDecodeError\<close>
  are subclasses of \<open>ValueError\<close>, so they are kinds of \<open>ValueError\<close>: a handler for
  \<open>ValueError\<close> catches them, a handler for \<open>JSONDecodeError\<close> catches only that one. The
  other kinds are the failure of \<open>int\<close> (with the offending text), the two errors raised
  in lines 77 and 81, and the error of \<open>open\<close> on a path that has a NUL character in it.
\<close>

datatype value_error =
    Invalid_literal ustring
  | Negative_price
  | Nonpositive_quantity
  | JSONDecodeError
  | UnicodeDecodeError
  | Embedded_null

datatype exn =
    FileNotFoundError
  | ValueError value_error
  | IndexError
  | EOFError
  | RecursionError

text \<open>
  The messages the operations return, one constructor for each string literal of the
  source; the wording is presentation and is not modelled. A constructor with an argument
  is an f-string, and the argument is the order id interpolated into it. The four messages
  whose text opens with the marker for an error are the \<open>Error_\<close> constructors.
\<close>

datatype message =
    No_pending_orders                \<comment> \<open>line 29\<close>
  | Process_cancelled                \<comment> \<open>line 38\<close>
  | Order_served ustring                \<comment> \<open>line 47\<close>
  | Error_invalid_number             \<comment> \<open>line 50\<close>
  | Error_order_id_empty             \<comment> \<open>line 56\<close>
  | Error_order_id_exists ustring       \<comment> \<open>line 59\<close>
  | Error_customer_empty             \<comment> \<open>line 63\<close>
  | Order_added ustring                 \<comment> \<open>line 94\<close>

fun is_error :: "message \<Rightarrow> bool" where
  "is_error Error_invalid_number = True"
| "is_error Error_order_id_empty = True"
| "is_error (Error_order_id_exists _) = True"
| "is_error Error_customer_empty = True"
| "is_error _ = False"

datatype prompt =
    Prompt_select       \<comment> \<open>line 36\<close>
  | Prompt_order_id     \<comment> \<open>line 54\<close>
  | Prompt_customer     \<comment> \<open>line 61\<close>
  | Prompt_item_name    \<comment> \<open>line 67\<close>
  | Prompt_price        \<comment> \<open>line 75\<close>
  | Prompt_quantity     \<comment> \<open>line 79\<close>
  | Prompt_option       \<comment> \<open>line 124\<close>

datatype title = Title_report | Title_served

text \<open>
  What the program writes to standard output, one constructor for each group of \<open>print\<close>
  calls, carrying the values that are formatted into the text.
\<close>

datatype printed =
    Out_prompt prompt
  | Out_pending "(nat \<times> ustring \<times> ustring) list"          \<comment> \<open>lines 31-34\<close>
  | Out_need_item                                   \<comment> \<open>line 70\<close>
  | Out_input_error value_error                     \<comment> \<open>line 85\<close>
  | Out_report_header title                         \<comment> \<open>line 98\<close>
  | Out_report_order ustring ustring "(ustring \<times> int \<times> int \<times> int) list" int
                                                    \<comment> \<open>lines 100-110\<close>
  | Out_menu                                        \<comment> \<open>lines 117-122\<close>
  | Out_shutdown                                    \<comment> \<open>line 127\<close>
  | Out_result message                              \<comment> \<open>lines 132-133 and 139-140\<close>
  | Out_rule                                        \<comment> \<open>lines 134 and 143\<close>
  | Out_invalid_option                              \<comment> \<open>line 145\<close>

section \<open>The state of a run\<close>

text \<open>
  The files are the regular files that the process may read and write, by their paths.
  The model keeps of a file what reading it as UTF-8 and parsing it with \<open>json.load\<close>
  makes of it: \<open>Document os\<close> is a text that parses to the list of orders \<open>os\<close>,
  \<open>Malformed\<close> is a text that \<open>json.load\<close> rejects with \<open>JSONDecodeError\<close>, \<open>Undecodable\<close>
  are bytes that are not UTF-8, on which reading raises \<open>UnicodeDecodeError\<close>, and
  \<open>Too_deep\<close> is a text nested deeper than the parser can follow, on which it raises
  \<open>RecursionError\<close>. \<open>json.dump\<close> is taken to write a text that parses back to the value
  it was given; that is a property of the JSON library and of the UTF-8 codec, which are
  not part of this program (the codec refuses text that holds a lone surrogate code point,
  which is not modelled).

  The state of a run is the lines that remain on standard input, what has been written to
  standard output, the files, and the list object \<open>orders\<close> that \<open>main_menu\<close> creates and
  hands to \<open>add_order\<close> and \<open>process_order\<close>, which change it in place.
\<close>

datatype file_content = Document "order list" | Malformed | Undecodable | Too_deep

record state =
  stdin :: "ustring list"
  stdout :: "printed list"
  files :: "ustring \<rightharpoonup> file_content"
  orders :: "order list"

text \<open>
  An operation returns its value or raises; the state it leaves behind is there in both
  cases, since what was read, printed and written before an exception stays so.
\<close>

type_synonym 'a result = "(exn + 'a) \<times> state"

definition INPUT_FILE :: ustring where
  "INPUT_FILE = str ''orders.json''"

definition OUTPUT_FILE :: ustring where
  "OUTPUT_FILE = str ''output_orders.json''"

definition print :: "printed \<Rightarrow> state \<Rightarrow> state" where
  "print x s = s\<lparr>stdout := stdout s @ [x]\<rparr>"

text \<open>
  \<open>input(prompt)\<close> writes the prompt and returns the next line, or raises \<open>EOFError\<close> when
  standard input has ended.
\<close>

definition input :: "prompt \<Rightarrow> state \<Rightarrow> ustring result" where
  "input p s =
     (let s1 = print (Out_prompt p) s in
      case stdin s1 of
        [] \<Rightarrow> (Inl EOFError, s1)
      | l # ls \<Rightarrow> (Inr l, s1\<lparr>stdin := ls\<rparr>))"

section \<open>Store\<close>

text \<open>
  Lines 12-13: opening the file for reading and parsing it. \<open>open\<close> refuses a path with
  a NUL character before it looks for the file.
\<close>

definition json_load :: "ustring \<Rightarrow> state \<Rightarrow> exn + order list" where
  "json_load filename s =
     (if 0 \<in> set filename then Inl (ValueError Embedded_null)
      else case files s filename of
        None \<Rightarrow> Inl FileNotFoundError
      | Some Malformed \<Rightarrow> Inl (ValueError JSONDecodeError)
      | Some Undecodable \<Rightarrow> Inl (ValueError UnicodeDecodeError)
      | Some Too_deep \<Rightarrow> Inl RecursionError
      | Some (Document os) \<Rightarrow> Inr os)"

text \<open>Lines 9-15: the handler turns the two exceptions it names into the empty list.\<close>

definition load_data :: "ustring \<Rightarrow> state \<Rightarrow> exn + order list" where
  "load_data filename s =
     (case json_load filename s of
        Inr os \<Rightarrow> Inr os
      | Inl e \<Rightarrow>
          if e = FileNotFoundError \<or> e = ValueError JSONDecodeError then Inr [] else Inl e)"

text \<open>
  Lines 17-20: the file is opened with mode \<open>w\<close>, so what it held is replaced. As for
  reading, \<open>open\<close> refuses a path with a NUL character.
\<close>

definition save_orders :: "ustring \<Rightarrow> order list \<Rightarrow> state \<Rightarrow> unit result" where
  "save_orders filename os s =
     (if 0 \<in> set filename then (Inl (ValueError Embedded_null), s)
      else (Inr (), s\<lparr>files := (files s)(filename \<mapsto> Document os)\<rparr>))"

section \<open>Order total\<close>

text \<open>
  Lines 22-24: \<open>sum\<close> starts from 0 and adds the products in the order of the items.
\<close>

definition calculate_order_total :: "order \<Rightarrow> int" where
  "calculate_order_total ord = foldl (+) 0 (map (\<lambda>it. price it * quantity it) (items ord))"

section \<open>Serving an order\<close>

text \<open>
  Lines 41-48, the body of the \<open>try\<close>: the choice is parsed, and when it names a position
  of the list the order there is popped, appended to what the output file holds, and both
  files are written. The order is popped before the output file is loaded.
\<close>

definition serve_choice :: "unicode \<Rightarrow> ustring \<Rightarrow> state \<Rightarrow> (message \<times> order option) result" where
  "serve_choice U choice s =
     (case py_int U choice of
        None \<Rightarrow> (Inl (ValueError (Invalid_literal choice)), s)
      | Some n \<Rightarrow>
          let index = n - 1 in
          if 0 \<le> index \<and> index < int (length (orders s)) then
            let completed_order = orders s ! nat index;
                s1 = s\<lparr>orders := take (nat index) (orders s) @ drop (Suc (nat index)) (orders s)\<rparr>
            in (case load_data OUTPUT_FILE s1 of
                  Inl e \<Rightarrow> (Inl e, s1)
                | Inr existing_output \<Rightarrow>
                    (case save_orders OUTPUT_FILE (existing_output @ [completed_order]) s1 of
                       (Inl e, s2) \<Rightarrow> (Inl e, s2)
                     | (Inr _, s2) \<Rightarrow>
                         (case save_orders INPUT_FILE (orders s2) s2 of
                            (Inl e, s3) \<Rightarrow> (Inl e, s3)
                          | (Inr _, s3) \<Rightarrow>
                              (Inr (Order_served (order_id completed_order),
                                    Some completed_order), s3))))
          else (Inl IndexError, s))"

text \<open>Lines 26-50. The handler of line 49 catches \<open>ValueError\<close> and \<open>IndexError\<close> alike.\<close>

definition process_order :: "unicode \<Rightarrow> state \<Rightarrow> (message \<times> order option) result" where
  "process_order U s =
     (if orders s = [] then (Inr (No_pending_orders, None), s)
      else
        let s1 = print (Out_pending (map (\<lambda>(i, ord). (i, order_id ord, customer ord))
                                         (List.enumerate 1 (orders s)))) s
        in (case input Prompt_select s1 of
              (Inl e, s2) \<Rightarrow> (Inl e, s2)
            | (Inr line, s2) \<Rightarrow>
                let choice = strip U line in
                if choice = [] then (Inr (Process_cancelled, None), s2)
                else (case serve_choice U choice s2 of
                        (Inr r, s3) \<Rightarrow> (Inr r, s3)
                      | (Inl (ValueError v), s3) \<Rightarrow> (Inr (Error_invalid_number, None), s3)
                      | (Inl IndexError, s3) \<Rightarrow> (Inr (Error_invalid_number, None), s3)
                      | (Inl e, s3) \<Rightarrow> (Inl e, s3))))"

section \<open>Adding an order\<close>

text \<open>
  Lines 75-81, the body of the \<open>try\<close> up to the append: the price is read and checked,
  then the quantity. A failure of \<open>int\<close> or of a check raises \<open>ValueError\<close> at once, so a
  rejected price means that no quantity is read.
\<close>

definition read_price_quantity :: "unicode \<Rightarrow> state \<Rightarrow> (int \<times> int) result" where
  "read_price_quantity U s =
     (case input Prompt_price s of
        (Inl e, s1) \<Rightarrow> (Inl e, s1)
      | (Inr l1, s1) \<Rightarrow>
          (case py_int U l1 of
             None \<Rightarrow> (Inl (ValueError (Invalid_literal l1)), s1)
           | Some p \<Rightarrow>
               if p < 0 then (Inl (ValueError Negative_price), s1)
               else (case input Prompt_quantity s1 of
                       (Inl e, s2) \<Rightarrow> (Inl e, s2)
                     | (Inr l2, s2) \<Rightarrow>
                         (case py_int U l2 of
                            None \<Rightarrow> (Inl (ValueError (Invalid_literal l2)), s2)
                          | Some q \<Rightarrow>
                              if q \<le> 0 then (Inl (ValueError Nonpositive_quantity), s2)
                              else (Inr (p, q), s2)))))"

lemma stdin_print [simp]: "stdin (print x s) = stdin s"
  by (simp add: print_def)

lemma input_stdin_Inr: "input p s = (Inr l, s') \<Longrightarrow> length (stdin s') < length (stdin s)"
  by (auto simp: input_def Let_def split: list.splits)

lemma input_stdin_le: "input p s = (r, s') \<Longrightarrow> length (stdin s') \<le> length (stdin s)"
  by (auto simp: input_def Let_def split: list.splits)

lemma read_price_quantity_stdin:
  "read_price_quantity U s = (r, s') \<Longrightarrow> length (stdin s') \<le> length (stdin s)"
  unfolding read_price_quantity_def
  by (auto split: prod.splits sum.splits option.splits if_splits
           dest!: input_stdin_le)

text \<open>
  Lines 65-85, the loop that collects the items. Every turn reads at least one line, so
  on a finite input the loop ends: with the items, or with \<open>EOFError\<close>.
\<close>

function read_items :: "unicode \<Rightarrow> item list \<Rightarrow> state \<Rightarrow> (item list) result" where
  "read_items U its s =
     (case input Prompt_item_name s of
        (Inl e, s1) \<Rightarrow> (Inl e, s1)
      | (Inr l, s1) \<Rightarrow>
          let nm = strip U l in
          if nm = [] then
            (if length its = 0 then read_items U its (print Out_need_item s1)
             else (Inr its, s1))
          else (case read_price_quantity U s1 of
                  (Inr (p, q), s2) \<Rightarrow>
                    read_items U (its @ [\<lparr>name = nm, price = p, quantity = q\<rparr>]) s2
                | (Inl (ValueError v), s2) \<Rightarrow> read_items U its (print (Out_input_error v) s2)
                | (Inl e, s2) \<Rightarrow> (Inl e, s2)))"
  by pat_completeness auto
termination
proof (relation "measure (\<lambda>(U, its, s). length (stdin s))")
  show "wf (measure (\<lambda>(U, its, s). length (stdin s)))" by simp
next
  fix U :: unicode and its :: "item list" and s x1 s1 l nm
  assume "(x1, s1) = input Prompt_item_name s" "x1 = Inr l"
  then have "length (stdin s1) < length (stdin s)"
    using input_stdin_Inr [of Prompt_item_name s l s1] by simp
  then show "((U, its, print Out_need_item s1), U, its, s)
             \<in> measure (\<lambda>(U, its, s). length (stdin s))"
    by simp
next
  fix U :: unicode and its :: "item list" and s x1 s1 l nm x1a s2 v e'
  assume "(x1, s1) = input Prompt_item_name s" "x1 = Inr l"
    and "(x1a, s2) = read_price_quantity U s1"
  then have "length (stdin s1) < length (stdin s)" "length (stdin s2) \<le> length (stdin s1)"
    using input_stdin_Inr [of Prompt_item_name s l s1]
      read_price_quantity_stdin [of U s1 x1a s2] by simp_all
  then show "((U, its, print (Out_input_error v) s2), U, its, s)
             \<in> measure (\<lambda>(U, its, s). length (stdin s))"
    by simp
next
  fix U :: unicode and its :: "item list" and s x1 s1 l nm x1a s2 p q
  assume "(x1, s1) = input Prompt_item_name s" "x1 = Inr l"
    and "(x1a, s2) = read_price_quantity U s1"
  then have "length (stdin s1) < length (stdin s)" "length (stdin s2) \<le> length (stdin s1)"
    using input_stdin_Inr [of Prompt_item_name s l s1]
      read_price_quantity_stdin [of U s1 x1a s2] by simp_all
  then show "((U, its @ [\<lparr>name = nm, price = p, quantity = q\<rparr>], s2), U, its, s)
             \<in> measure (\<lambda>(U, its, s). length (stdin s))"
    by simp
qed

declare read_items.simps [simp del]

text \<open>
  Lines 52-94. The id is trimmed and put in upper case, then compared with the ids stored
  in the list as they are. The order is appended and the list is saved only when the item
  loop has returned.
\<close>

definition add_order :: "unicode \<Rightarrow> state \<Rightarrow> message result" where
  "add_order U s =
     (case input Prompt_order_id s of
        (Inl e, s1) \<Rightarrow> (Inl e, s1)
      | (Inr l1, s1) \<Rightarrow>
          let oid = upper U (strip U l1) in
          if oid = [] then (Inr Error_order_id_empty, s1)
          else if list_ex (\<lambda>ord. order_id ord = oid) (orders s1)
          then (Inr (Error_order_id_exists oid), s1)
          else (case input Prompt_customer s1 of
                  (Inl e, s2) \<Rightarrow> (Inl e, s2)
                | (Inr l2, s2) \<Rightarrow>
                    let cust = strip U l2 in
                    if cust = [] then (Inr Error_customer_empty, s2)
                    else (case read_items U [] s2 of
                            (Inl e, s3) \<Rightarrow> (Inl e, s3)
                          | (Inr its, s3) \<Rightarrow>
                              let new_order = \<lparr>order_id = oid, customer = cust, items = its\<rparr>;
                                  s4 = s3\<lparr>orders := orders s3 @ [new_order]\<rparr>
                              in (case save_orders INPUT_FILE (orders s4) s4 of
                                    (Inl e, s5) \<Rightarrow> (Inl e, s5)
                                  | (Inr _, s5) \<Rightarrow> (Inr (Order_added oid), s5)))))"

section \<open>Report\<close>

text \<open>
  Lines 96-110: a header, then for every order its id, its customer, a row for each item
  with the subtotal, and the total.
\<close>

definition report_order :: "order \<Rightarrow> printed" where
  "report_order ord =
     Out_report_order (order_id ord) (customer ord)
       (map (\<lambda>it. (name it, price it, quantity it, price it * quantity it)) (items ord))
       (calculate_order_total ord)"

definition print_order_report :: "order list \<Rightarrow> title \<Rightarrow> state \<Rightarrow> state" where
  "print_order_report os t s =
     foldl (\<lambda>s' ord. print (report_order ord) s') (print (Out_report_header t) s) os"

section \<open>Menu\<close>

datatype control = Running | Exited

text \<open>Lines 117-145: one turn of the loop of \<open>main_menu\<close>.\<close>

definition menu_step :: "unicode \<Rightarrow> state \<Rightarrow> control result" where
  "menu_step U s =
     (case input Prompt_option (print Out_menu s) of
        (Inl e, s1) \<Rightarrow> (Inl e, s1)
      | (Inr l, s1) \<Rightarrow>
          let choice = strip U l in
          if choice = [] \<or> choice = str ''4'' then (Inr Exited, print Out_shutdown s1)
          else if choice = str ''1'' then
            (case add_order U s1 of
               (Inl e, s2) \<Rightarrow> (Inl e, s2)
             | (Inr result, s2) \<Rightarrow> (Inr Running, print Out_rule (print (Out_result result) s2)))
          else if choice = str ''2'' then
            (Inr Running, print_order_report (orders s1) Title_report s1)
          else if choice = str ''3'' then
            (case process_order U s1 of
               (Inl e, s2) \<Rightarrow> (Inl e, s2)
             | (Inr (msg, served), s2) \<Rightarrow>
                 let s3 = print (Out_result msg) s2;
                     s4 = (case served of
                             None \<Rightarrow> s3
                           | Some ord \<Rightarrow> print_order_report [ord] Title_served s3)
                 in (Inr Running, print Out_rule s4))
          else (Inr Running, print Out_invalid_option s1))"

section \<open>Shorthands for the statements\<close>

text \<open>
  What the data model asks of the items of an order: a name that is not empty, a price
  that is not negative and a quantity of at least one.
\<close>

definition items_ok :: "item list \<Rightarrow> bool" where
  "items_ok its \<longleftrightarrow> list_all (\<lambda>it. name it \<noteq> [] \<and> 0 \<le> price it \<and> 1 \<le> quantity it) its"

text \<open>
  The state after lines 31-36 have printed the list of pending orders and the prompt.
\<close>

definition listed :: "state \<Rightarrow> state" where
  "listed s = s\<lparr>stdout := stdout s @
       [Out_pending (map (\<lambda>(i, ord). (i, order_id ord, customer ord)) (List.enumerate 1 (orders s))),
        Out_prompt Prompt_select]\<rparr>"

text \<open>The state after the prompts of lines 54 and 61 have been answered.\<close>

definition asked :: "state \<Rightarrow> ustring list \<Rightarrow> state" where
  "asked s rest =
     s\<lparr>stdin := rest, stdout := stdout s @ [Out_prompt Prompt_order_id, Out_prompt Prompt_customer]\<rparr>"

text \<open>The state after lines 117-124 have printed the menu and read the choice.\<close>

definition chosen :: "state \<Rightarrow> ustring list \<Rightarrow> state" where
  "chosen s rest = s\<lparr>stdin := rest, stdout := stdout s @ [Out_menu, Out_prompt Prompt_option]\<rparr>"

text \<open>
  Tables with no entry: no white space, no digit and no cased letter from 128 on. They
  serve to run the program on ASCII lines, where the tables are not looked at.
\<close>

definition no_tables :: unicode where
  "no_tables = \<lparr>space_other = (\<lambda>c. False), decimal_other = (\<lambda>c. None), upper_other = (\<lambda>c. [c])\<rparr>"

section \<open>What the operations leave untouched\<close>

lemma files_print [simp]: "files (print x s) = files s"
  by (simp add: print_def)
lemma orders_print [simp]: "orders (print x s) = orders s"
  by (simp add: print_def)

lemma input_frame: "input p s = (r, s') \<Longrightarrow> files s' = files s \<and> orders s' = orders s"
  by (auto simp: input_def Let_def print_def split: list.splits)

lemma read_price_quantity_frame:
  "read_price_quantity U s = (r, s') \<Longrightarrow> files s' = files s \<and> orders s' = orders s"
  unfolding read_price_quantity_def
  by (auto split: prod.splits sum.splits option.splits if_splits dest!: input_frame)

lemma read_price_quantity_valid:
  "read_price_quantity U s = (Inr (p, q), s') \<Longrightarrow> 0 \<le> p \<and> 1 \<le> q"
  unfolding read_price_quantity_def
  by (auto split: prod.splits sum.splits option.splits if_splits)

lemma read_items_props:
  "read_items U its s = (r, s') \<Longrightarrow>
     length (stdin s') \<le> length (stdin s) \<and> files s' = files s \<and> orders s' = orders s \<and>
     (\<forall>its'. r = Inr its' \<longrightarrow> its' \<noteq> [] \<and> (\<exists>new. its' = its @ new \<and> items_ok new))"
proof (induction U its s arbitrary: r s' rule: read_items.induct)
  case (1 U its s)
  obtain x s1 where inp: "input Prompt_item_name s = (x, s1)" by (cases "input Prompt_item_name s")
  note fr1 = input_frame [OF inp] and le1 = input_stdin_le [OF inp]
  show ?case
  proof (cases x)
    case (Inl e)
    with inp "1.prems" have "r = Inl e" "s' = s1"
      by (simp_all add: read_items.simps [of U its s])
    with fr1 le1 show ?thesis by simp
  next
    case (Inr l)
    note IH = "1.IH" [OF inp [symmetric] Inr refl]
    show ?thesis
    proof (cases "strip U l = []")
      case True
      show ?thesis
      proof (cases "length its = 0")
        case True
        with \<open>strip U l = []\<close> inp Inr "1.prems"
        have "read_items U its (print Out_need_item s1) = (r, s')"
          by (simp add: read_items.simps [of U its s])
        from IH(1) [OF \<open>strip U l = []\<close> True this] fr1 le1 show ?thesis by simp
      next
        case False
        with \<open>strip U l = []\<close> inp Inr "1.prems" have "r = Inr its" "s' = s1"
          by (simp_all add: read_items.simps [of U its s])
        with fr1 le1 False show ?thesis by (simp add: items_ok_def)
      qed
    next
      case False
      obtain y s2 where rpq: "read_price_quantity U s1 = (y, s2)"
        by (cases "read_price_quantity U s1")
      note fr2 = read_price_quantity_frame [OF rpq] and le2 = read_price_quantity_stdin [OF rpq]
      show ?thesis
      proof (cases y)
        case (Inr pq)
        obtain p q where pq: "pq = (p, q)" by (cases pq)
        with False inp \<open>x = Inr l\<close> rpq Inr "1.prems"
        have "read_items U (its @ [\<lparr>name = strip U l, price = p, quantity = q\<rparr>]) s2 = (r, s')"
          by (simp add: read_items.simps [of U its s])
        from IH(3) [OF False rpq [symmetric] Inr pq [symmetric] this]
          read_price_quantity_valid [OF rpq [unfolded Inr pq]] False fr1 le1 fr2 le2
        show ?thesis by (auto simp: items_ok_def)
      next
        case (Inl e)
        show ?thesis
        proof (cases e)
          case (ValueError v)
          with False inp \<open>x = Inr l\<close> rpq Inl "1.prems"
          have "read_items U its (print (Out_input_error v) s2) = (r, s')"
            by (simp add: read_items.simps [of U its s])
          from IH(2) [OF False rpq [symmetric] Inl ValueError this] fr1 le1 fr2 le2
          show ?thesis by simp
        next
          case FileNotFoundError
          with False inp \<open>x = Inr l\<close> rpq Inl "1.prems" have "r = Inl e" "s' = s2"
            by (simp_all add: read_items.simps [of U its s])
          with fr1 le1 fr2 le2 show ?thesis by simp
        next
          case IndexError
          with False inp \<open>x = Inr l\<close> rpq Inl "1.prems" have "r = Inl e" "s' = s2"
            by (simp_all add: read_items.simps [of U its s])
          with fr1 le1 fr2 le2 show ?thesis by simp
        next
          case EOFError
          with False inp \<open>x = Inr l\<close> rpq Inl "1.prems" have "r = Inl e" "s' = s2"
            by (simp_all add: read_items.simps [of U its s])
          with fr1 le1 fr2 le2 show ?thesis by simp
        next
          case RecursionError
          with False inp \<open>x = Inr l\<close> rpq Inl "1.prems" have "r = Inl e" "s' = s2"
            by (simp_all add: read_items.simps [of U its s])
          with fr1 le1 fr2 le2 show ?thesis by simp
        qed
      qed
    qed
  qed
qed

lemma no_nul_files [simp]: "0 \<notin> set INPUT_FILE" "0 \<notin> set OUTPUT_FILE"
  by (simp_all add: INPUT_FILE_def OUTPUT_FILE_def str_def)

lemma save_orders_ok:
  "0 \<notin> set f \<Longrightarrow> save_orders f os s = (Inr (), s\<lparr>files := (files s)(f \<mapsto> Document os)\<rparr>)"
  by (simp add: save_orders_def)

lemma save_orders_stdin [simp]: "stdin (snd (save_orders f os s)) = stdin s"
  by (simp add: save_orders_def)

lemma add_order_stdin:
  "add_order U s = (r, s') \<Longrightarrow> length (stdin s') \<le> length (stdin s)"
  unfolding add_order_def
  by (auto simp: Let_def save_orders_ok split: prod.splits sum.splits if_splits
           dest!: input_stdin_le read_items_props)

lemma serve_choice_stdin: "serve_choice U c s = (r, s') \<Longrightarrow> stdin s' = stdin s"
  unfolding serve_choice_def
  by (auto simp: Let_def save_orders_ok split: option.splits if_splits sum.splits)

lemma process_order_stdin:
  "process_order U s = (r, s') \<Longrightarrow> length (stdin s') \<le> length (stdin s)"
  unfolding process_order_def
  by (auto simp: Let_def split: prod.splits sum.splits if_splits exn.splits
           dest!: input_stdin_le serve_choice_stdin)

lemma stdin_print_order_report [simp]: "stdin (print_order_report os t s) = stdin s"
proof -
  have "stdin (foldl (\<lambda>s' ord. print (report_order ord) s') s0 os) = stdin s0" for s0
    by (induction os arbitrary: s0) simp_all
  then show ?thesis by (simp add: print_order_report_def)
qed

lemma menu_step_stdin:
  "menu_step U s = (Inr c, s') \<Longrightarrow> length (stdin s') < length (stdin s)"
  unfolding menu_step_def
  by (auto simp: Let_def split: prod.splits sum.splits if_splits option.splits
           dest!: input_stdin_Inr add_order_stdin process_order_stdin)

text \<open>
  Lines 116-145: the loop runs \<open>menu_step\<close> until it exits. Every turn reads a line, so on
  a finite input the loop ends: by the exit choice, or with an exception.
\<close>

function menu_loop :: "unicode \<Rightarrow> state \<Rightarrow> unit result" where
  "menu_loop U s =
     (case menu_step U s of
        (Inl e, s1) \<Rightarrow> (Inl e, s1)
      | (Inr Exited, s1) \<Rightarrow> (Inr (), s1)
      | (Inr Running, s1) \<Rightarrow> menu_loop U s1)"
  by pat_completeness auto
termination
proof (relation "measure (\<lambda>(U, s). length (stdin s))")
  show "wf (measure (\<lambda>(U, s). length (stdin s)))" by simp
next
  fix U :: unicode and s x1 s1 c
  assume "(x1, s1) = menu_step U s" "x1 = Inr c"
  then show "((U, s1), U, s) \<in> measure (\<lambda>(U, s). length (stdin s))"
    using menu_step_stdin [of U s c s1] by simp
qed

declare menu_loop.simps [simp del]

text \<open>Lines 112-145: the list is loaded once, before the loop.\<close>

definition main_menu :: "unicode \<Rightarrow> state \<Rightarrow> unit result" where
  "main_menu U s =
     (case load_data INPUT_FILE s of
        Inl e \<Rightarrow> (Inl e, s)
      | Inr os \<Rightarrow> menu_loop U (s\<lparr>orders := os\<rparr>))"

section \<open>Store: loading and saving\<close>

lemma load_data_Document:
  "0 \<notin> set path \<Longrightarrow> files s path = Some (Document os) \<Longrightarrow> load_data path s = Inr os"
  by (simp add: load_data_def json_load_def)

lemma load_data_files_cong: "files s = files s' \<Longrightarrow> load_data path s = load_data path s'"
  by (simp add: load_data_def json_load_def)

text \<open>
  Claim C5, as the program has it. For a path that \<open>open\<close> accepts, \<open>load_data\<close> returns
  the empty list when the file does not exist and when its text is rejected by the JSON
  parser with \<open>JSONDecodeError\<close>, and it returns the list of a file that parses; it raises
  nothing in these cases. The handler of line 14 names these two exceptions and no other:
  a path with a NUL character, bytes that are not UTF-8 and a text nested too deep raise
  \<open>ValueError\<close>, \<open>UnicodeDecodeError\<close> and \<open>RecursionError\<close>, which reach the caller.
\<close>

theorem load_data_recovers:
  "(0 \<notin> set path \<and> (files s path = None \<or> files s path = Some Malformed) \<longrightarrow>
      load_data path s = Inr []) \<and>
   (0 \<notin> set path \<and> files s path = Some (Document os) \<longrightarrow> load_data path s = Inr os) \<and>
   (0 \<in> set path \<longrightarrow> load_data path s = Inl (ValueError Embedded_null)) \<and>
   (0 \<notin> set path \<and> files s path = Some Undecodable \<longrightarrow>
      load_data path s = Inl (ValueError UnicodeDecodeError)) \<and>
   (0 \<notin> set path \<and> files s path = Some Too_deep \<longrightarrow> load_data path s = Inl RecursionError)"
  by (auto simp: load_data_def json_load_def)

theorem load_data_recovers_witness:
  "load_data (str ''orders.json'')
     \<lparr>stdin = [], stdout = [], files = Map.empty, orders = []\<rparr> = Inr [] \<and>
   load_data (str ''orders.json'')
     \<lparr>stdin = [], stdout = [], files = [str ''orders.json'' \<mapsto> Malformed], orders = []\<rparr>
     = Inr []"
proof -
  have n: "0 \<notin> set (str ''orders.json'')" by (simp add: str_def)
  show ?thesis
    using n
      load_data_recovers
        [of "str ''orders.json''" "\<lparr>stdin = [], stdout = [], files = Map.empty, orders = []\<rparr>"]
      load_data_recovers
        [of "str ''orders.json''"
            "\<lparr>stdin = [], stdout = [], files = [str ''orders.json'' \<mapsto> Malformed],
              orders = []\<rparr>"]
    by simp
qed

text \<open>
  Three loads that let an exception reach the caller: a file whose contents fail to parse
  because its bytes are not UTF-8, a file whose contents fail to parse because they are
  nested too deep, and a path with a NUL character in it.
\<close>

theorem load_data_lets_errors_through:
  "load_data (str ''orders.json'')
     \<lparr>stdin = [], stdout = [], files = [str ''orders.json'' \<mapsto> Undecodable], orders = []\<rparr>
     = Inl (ValueError UnicodeDecodeError) \<and>
   load_data (str ''orders.json'')
     \<lparr>stdin = [], stdout = [], files = [str ''orders.json'' \<mapsto> Too_deep], orders = []\<rparr>
     = Inl RecursionError \<and>
   load_data [97, 0, 98] \<lparr>stdin = [], stdout = [], files = Map.empty, orders = []\<rparr>
     = Inl (ValueError Embedded_null)"
  by (simp add: load_data_def json_load_def str_def)

text \<open>
  Claim C6. For every list of orders that have at least one item each, saving the list to
  a file and loading that file gives back the same list, whatever the file held before.
  Saving returns for every path that \<open>open\<close> accepts.
\<close>

theorem save_then_load:
  assumes "\<forall>ord \<in> set os. items ord \<noteq> []"
  shows "(0 \<notin> set path \<longrightarrow> (\<exists>s'. save_orders path os s = (Inr (), s'))) \<and>
         (\<forall>s'. save_orders path os s = (Inr (), s') \<longrightarrow> load_data path s' = Inr os)"
  by (auto simp: save_orders_def load_data_def json_load_def split: if_splits)

theorem save_then_load_witness:
  "load_data (str ''orders.json'')
     (snd (save_orders (str ''orders.json'')
        [\<lparr>order_id = str ''A1'', customer = str ''Alice'',
          items = [\<lparr>name = str ''Tea'', price = 30, quantity = 2\<rparr>]\<rparr>]
        \<lparr>stdin = [], stdout = [], files = [str ''orders.json'' \<mapsto> Malformed], orders = []\<rparr>))
   = Inr [\<lparr>order_id = str ''A1'', customer = str ''Alice'',
           items = [\<lparr>name = str ''Tea'', price = 30, quantity = 2\<rparr>]\<rparr>]"
proof -
  let ?os = "[\<lparr>order_id = str ''A1'', customer = str ''Alice'',
                items = [\<lparr>name = str ''Tea'', price = 30, quantity = 2\<rparr>]\<rparr>]"
  let ?s = "\<lparr>stdin = [], stdout = [], files = [str ''orders.json'' \<mapsto> Malformed], orders = []\<rparr>"
  have n: "0 \<notin> set (str ''orders.json'')" by (simp add: str_def)
  have i: "\<forall>ord \<in> set ?os. items ord \<noteq> []" by simp
  from save_then_load [OF i, of "str ''orders.json''" ?s] n
  obtain s' where 1: "save_orders (str ''orders.json'') ?os ?s = (Inr (), s')"
    and 2: "load_data (str ''orders.json'') s' = Inr ?os"
    by blast
  from 1 2 show ?thesis by simp
qed

section \<open>Order total: the sum of the subtotals\<close>

lemma foldl_add_sum_list: "foldl (+) a xs = a + sum_list (xs :: int list)"
  by (induction xs arbitrary: a) simp_all

lemma sum_list_mset_cong:
  assumes "mset xs = mset ys"
  shows "sum_list (map f xs) = (sum_list (map f ys) :: int)"
proof -
  have "sum_mset (mset (map f xs)) = sum_mset (mset (map f ys))"
    using assms by simp
  then show ?thesis by (simp only: sum_mset_sum_list)
qed

text \<open>
  Claim C7. \<open>calculate_order_total\<close> is the sum over the items of the order of price times
  quantity, and two orders whose items are the same up to their order have the same total.
  The function takes an order and returns an integer: it neither reads nor changes the
  state of the run.
\<close>

theorem calculate_order_total_sum:
  "calculate_order_total ord = (\<Sum>it\<leftarrow>items ord. price it * quantity it) \<and>
   (\<forall>ord'. mset (items ord') = mset (items ord) \<longrightarrow>
            calculate_order_total ord' = calculate_order_total ord)"
  by (auto simp: calculate_order_total_def foldl_add_sum_list intro: sum_list_mset_cong)

theorem calculate_order_total_sum_witness:
  "calculate_order_total
     \<lparr>order_id = str ''A1'', customer = str ''Bob'',
      items = [\<lparr>name = str ''Cola'', price = 20, quantity = 3\<rparr>,
               \<lparr>name = str ''Tea'', price = 30, quantity = 2\<rparr>]\<rparr> = 120 \<and>
   calculate_order_total
     \<lparr>order_id = str ''A1'', customer = str ''Bob'',
      items = [\<lparr>name = str ''Tea'', price = 30, quantity = 2\<rparr>,
               \<lparr>name = str ''Cola'', price = 20, quantity = 3\<rparr>]\<rparr> = 120"
proof -
  let ?a = "\<lparr>name = str ''Cola'', price = 20, quantity = 3\<rparr>"
  let ?b = "\<lparr>name = str ''Tea'', price = 30, quantity = 2\<rparr>"
  let ?o1 = "\<lparr>order_id = str ''A1'', customer = str ''Bob'', items = [?a, ?b]\<rparr>"
  let ?o2 = "\<lparr>order_id = str ''A1'', customer = str ''Bob'', items = [?b, ?a]\<rparr>"
  have m: "mset (items ?o2) = mset (items ?o1)" by simp
  from calculate_order_total_sum [of ?o1]
  have 1: "calculate_order_total ?o1 = 120" and 2: "calculate_order_total ?o2 = calculate_order_total ?o1"
    using m by simp_all
  from 1 2 show ?thesis by simp
qed

section \<open>Serving an order: what a call does\<close>

lemma py_int_Nil [simp]: "py_int U [] = None"
  by (simp add: py_int_def)

lemma files_differ [simp]: "INPUT_FILE \<noteq> OUTPUT_FILE" "OUTPUT_FILE \<noteq> INPUT_FILE"
  by (simp_all add: INPUT_FILE_def OUTPUT_FILE_def str_def)

lemma load_data_output:
  assumes "files s OUTPUT_FILE \<noteq> Some Undecodable" "files s OUTPUT_FILE \<noteq> Some Too_deep"
  shows "\<exists>os. load_data OUTPUT_FILE s = Inr os"
  using assms
  by (auto simp: load_data_def json_load_def split: option.splits file_content.splits)

lemma input_Cons:
  "stdin s = l # ls \<Longrightarrow>
   input p s = (Inr l, s\<lparr>stdin := ls, stdout := stdout s @ [Out_prompt p]\<rparr>)"
  by (simp add: input_def print_def Let_def)

lemma serve_choice_served:
  assumes "py_int U c = Some k" "1 \<le> k" "k \<le> int (length (orders s))"
    and "load_data OUTPUT_FILE s = Inr completed"
  shows "serve_choice U c s =
    (Inr (Order_served (order_id (orders s ! nat (k - 1))), Some (orders s ! nat (k - 1))),
     s\<lparr>orders := take (nat (k - 1)) (orders s) @ drop (nat k) (orders s),
       files := (files s)
          (OUTPUT_FILE \<mapsto> Document (completed @ [orders s ! nat (k - 1)]),
           INPUT_FILE \<mapsto> Document (take (nat (k - 1)) (orders s) @ drop (nat k) (orders s)))\<rparr>)"
proof -
  have k: "Suc (nat (k - 1)) = nat k" using assms(2) by simp
  have ld: "load_data OUTPUT_FILE
      (s\<lparr>orders := take (nat (k - 1)) (orders s) @ drop (nat k) (orders s)\<rparr>) = Inr completed"
    using assms(4) by (simp add: load_data_def json_load_def)
  show ?thesis
    using assms(1-3) ld by (simp add: serve_choice_def Let_def k save_orders_ok)
qed

lemma process_order_prompt:
  assumes "orders s \<noteq> []" "stdin s = line # rest"
  shows "process_order U s =
     (let s2 = (listed s)\<lparr>stdin := rest\<rparr> in
      if strip U line = [] then (Inr (Process_cancelled, None), s2)
      else (case serve_choice U (strip U line) s2 of
              (Inr r, s3) \<Rightarrow> (Inr r, s3)
            | (Inl (ValueError v), s3) \<Rightarrow> (Inr (Error_invalid_number, None), s3)
            | (Inl IndexError, s3) \<Rightarrow> (Inr (Error_invalid_number, None), s3)
            | (Inl e, s3) \<Rightarrow> (Inl e, s3)))"
proof -
  let ?s1 = "print (Out_pending (map (\<lambda>(i, ord). (i, order_id ord, customer ord))
                                      (List.enumerate 1 (orders s)))) s"
  have "stdin ?s1 = line # rest" using assms(2) by simp
  from input_Cons [OF this, of Prompt_select]
  have "input Prompt_select ?s1 = (Inr line, (listed s)\<lparr>stdin := rest\<rparr>)"
    by (simp add: print_def listed_def)
  then show ?thesis using assms(1) by (simp add: process_order_def Let_def)
qed

lemma process_order_served:
  assumes "stdin s = line # rest" "py_int U (strip U line) = Some k" "1 \<le> k"
    "k \<le> int (length (orders s))" "load_data OUTPUT_FILE s = Inr completed"
  shows "process_order U s =
    (Inr (Order_served (order_id (orders s ! nat (k - 1))), Some (orders s ! nat (k - 1))),
     (listed s)\<lparr>stdin := rest,
       orders := take (nat (k - 1)) (orders s) @ drop (nat k) (orders s),
       files := (files s)
          (OUTPUT_FILE \<mapsto> Document (completed @ [orders s ! nat (k - 1)]),
           INPUT_FILE \<mapsto> Document (take (nat (k - 1)) (orders s) @ drop (nat k) (orders s)))\<rparr>)"
proof -
  have ne: "orders s \<noteq> []" using assms(3,4) by auto
  have sl: "strip U line \<noteq> []" using assms(2) by auto
  let ?s2 = "(listed s)\<lparr>stdin := rest\<rparr>"
  have o: "orders ?s2 = orders s" "files ?s2 = files s" by (simp_all add: listed_def)
  have ld: "load_data OUTPUT_FILE ?s2 = Inr completed"
    using assms(5) load_data_files_cong [of ?s2 s] o by simp
  from serve_choice_served [of U "strip U line" k ?s2 completed] assms(2,3,4) ld o
  show ?thesis
    by (simp add: process_order_prompt [OF ne assms(1)] Let_def sl)
qed

text \<open>
  Claim C1. When the line read at the prompt parses to a number \<open>k\<close> with
  \<open>1 \<le> k \<le> length orders\<close> (so the list is not empty), and the output file can be
  loaded (it is absent, or its text parses or is rejected by the JSON parser),
  \<open>process_order\<close> returns the \<open>k\<close>-th order together with the success message made from
  its order id; the order is removed from the pending list, the list loaded from the
  output file with the order appended is written to the output file, the pending list that
  remains is written to the input file, the pending list is one shorter and the completed
  list one longer.
\<close>

theorem process_order_moves_order:
  assumes "stdin s = line # rest" and "py_int U (strip U line) = Some k"
    and "1 \<le> k" and "k \<le> int (length (orders s))"
    and "files s OUTPUT_FILE \<noteq> Some Undecodable" and "files s OUTPUT_FILE \<noteq> Some Too_deep"
  shows "\<exists>s' completed.
     process_order U s =
       (Inr (Order_served (order_id (orders s ! nat (k - 1))), Some (orders s ! nat (k - 1))), s') \<and>
     load_data OUTPUT_FILE s = Inr completed \<and>
     orders s' = take (nat (k - 1)) (orders s) @ drop (nat k) (orders s) \<and>
     load_data OUTPUT_FILE s' = Inr (completed @ [orders s ! nat (k - 1)]) \<and>
     load_data INPUT_FILE s' = Inr (orders s') \<and>
     length (orders s') + 1 = length (orders s) \<and>
     length (completed @ [orders s ! nat (k - 1)]) = length completed + 1"
proof -
  obtain completed where c: "load_data OUTPUT_FILE s = Inr completed"
    using load_data_output [OF assms(5,6)] by blast
  let ?rest = "take (nat (k - 1)) (orders s) @ drop (nat k) (orders s)"
  let ?s' = "(listed s)\<lparr>stdin := rest, orders := ?rest,
       files := (files s)
          (OUTPUT_FILE \<mapsto> Document (completed @ [orders s ! nat (k - 1)]),
           INPUT_FILE \<mapsto> Document ?rest)\<rparr>"
  have len: "length ?rest + 1 = length (orders s)"
    using assms(3,4) by (simp add: min_def) linarith
  have "load_data OUTPUT_FILE ?s' = Inr (completed @ [orders s ! nat (k - 1)])"
    by (rule load_data_Document) simp_all
  moreover have "load_data INPUT_FILE ?s' = Inr (orders ?s')"
    by (rule load_data_Document) simp_all
  ultimately show ?thesis
    using process_order_served [OF assms(1-4) c] c len
    by (intro exI [of _ ?s'] exI [of _ completed]) simp
qed

text \<open>The definitions that evaluate the text functions on a literal.\<close>

lemmas text_defs = str_def no_tables_def strip_def is_space_def upper_def upper_char_def
  py_int_def int_space_def parse_nat_def digit_val_def

theorem process_order_moves_order_witness:
  "fst (process_order no_tables
     \<lparr>stdin = [str '' 2 ''], stdout = [], files = Map.empty,
      orders = [\<lparr>order_id = str ''A1'', customer = str ''Bob'',
                  items = [\<lparr>name = str ''Cola'', price = 20, quantity = 3\<rparr>]\<rparr>,
                \<lparr>order_id = str ''B2'', customer = str ''Amy'',
                  items = [\<lparr>name = str ''Tea'', price = 30, quantity = 2\<rparr>]\<rparr>]\<rparr>)
   = Inr (Order_served (str ''B2''),
          Some \<lparr>order_id = str ''B2'', customer = str ''Amy'',
                items = [\<lparr>name = str ''Tea'', price = 30, quantity = 2\<rparr>]\<rparr>)"
proof -
  let ?s = "\<lparr>stdin = [str '' 2 ''], stdout = [], files = Map.empty,
      orders = [\<lparr>order_id = str ''A1'', customer = str ''Bob'',
                  items = [\<lparr>name = str ''Cola'', price = 20, quantity = 3\<rparr>]\<rparr>,
                \<lparr>order_id = str ''B2'', customer = str ''Amy'',
                  items = [\<lparr>name = str ''Tea'', price = 30, quantity = 2\<rparr>]\<rparr>]\<rparr>"
  have 1: "stdin ?s = str '' 2 '' # []" by simp
  have 2: "py_int no_tables (strip no_tables (str '' 2 '')) = Some 2" by (simp add: text_defs)
  have 3: "(1::int) \<le> 2" "2 \<le> int (length (orders ?s))" by simp_all
  have 4: "files ?s OUTPUT_FILE \<noteq> Some Undecodable" "files ?s OUTPUT_FILE \<noteq> Some Too_deep"
    by simp_all
  from process_order_moves_order [OF 1 2 3 4] show ?thesis by auto
qed

text \<open>
  Claim C9. After such a call the pending list is the one before without its \<open>k\<close>-th order:
  the orders before position \<open>k\<close> keep their places, the orders after it move up by one,
  and each is what it was. The completed list that is persisted is the list that was
  persisted before, unchanged and in its order, with the served order at its end; the
  pending list that is persisted is the one in memory, and no other file is touched.
\<close>

theorem process_order_keeps_the_rest:
  assumes "stdin s = line # rest" and "py_int U (strip U line) = Some k"
    and "1 \<le> k" and "k \<le> int (length (orders s))"
    and "files s OUTPUT_FILE \<noteq> Some Undecodable" and "files s OUTPUT_FILE \<noteq> Some Too_deep"
  shows "\<exists>s' completed.
     snd (process_order U s) = s' \<and>
     load_data OUTPUT_FILE s = Inr completed \<and>
     orders s' = take (nat (k - 1)) (orders s) @ drop (nat k) (orders s) \<and>
     (\<forall>i. i < nat (k - 1) \<longrightarrow> orders s' ! i = orders s ! i) \<and>
     (\<forall>i. nat (k - 1) \<le> i \<and> i < length (orders s') \<longrightarrow> orders s' ! i = orders s ! Suc i) \<and>
     load_data OUTPUT_FILE s' = Inr (completed @ [orders s ! nat (k - 1)]) \<and>
     load_data INPUT_FILE s' = Inr (orders s') \<and>
     (\<forall>path. path \<noteq> INPUT_FILE \<and> path \<noteq> OUTPUT_FILE \<longrightarrow> files s' path = files s path)"
proof -
  obtain completed where c: "load_data OUTPUT_FILE s = Inr completed"
    using load_data_output [OF assms(5,6)] by blast
  let ?rest = "take (nat (k - 1)) (orders s) @ drop (nat k) (orders s)"
  let ?s' = "(listed s)\<lparr>stdin := rest, orders := ?rest,
       files := (files s)
          (OUTPUT_FILE \<mapsto> Document (completed @ [orders s ! nat (k - 1)]),
           INPUT_FILE \<mapsto> Document ?rest)\<rparr>"
  have k: "nat k = Suc (nat (k - 1))" "nat (k - 1) < length (orders s)"
    using assms(3,4) by simp_all
  have before: "?rest ! i = orders s ! i" if "i < nat (k - 1)" for i
    using that k by (simp add: nth_append)
  have after: "?rest ! i = orders s ! Suc i" if "nat (k - 1) \<le> i" "i < length ?rest" for i
  proof -
    have "min (length (orders s)) (nat (k - 1)) = nat (k - 1)" using k by simp
    with that k show ?thesis by (simp add: nth_append)
  qed
  have "load_data OUTPUT_FILE ?s' = Inr (completed @ [orders s ! nat (k - 1)])"
    by (rule load_data_Document) simp_all
  moreover have "load_data INPUT_FILE ?s' = Inr (orders ?s')"
    by (rule load_data_Document) simp_all
  moreover have "snd (process_order U s) = ?s'"
    using process_order_served [OF assms(1-4) c] by simp
  moreover have "orders ?s' = ?rest" by simp
  moreover have "files ?s' path = files s path"
    if "path \<noteq> INPUT_FILE \<and> path \<noteq> OUTPUT_FILE" for path
    using that by (simp add: listed_def)
  ultimately show ?thesis
    using c before after
    by (intro exI [of _ ?s'] exI [of _ completed] conjI allI impI) simp_all
qed

theorem process_order_keeps_the_rest_witness:
  "orders (snd (process_order no_tables
     \<lparr>stdin = [str ''2''], stdout = [],
      files = [str ''output_orders.json'' \<mapsto>
                 Document [\<lparr>order_id = str ''Z0'', customer = str ''Zoe'',
                             items = [\<lparr>name = str ''Soup'', price = 50, quantity = 1\<rparr>]\<rparr>]],
      orders = [\<lparr>order_id = str ''A1'', customer = str ''Bob'',
                  items = [\<lparr>name = str ''Cola'', price = 20, quantity = 3\<rparr>]\<rparr>,
                \<lparr>order_id = str ''B2'', customer = str ''Amy'',
                  items = [\<lparr>name = str ''Tea'', price = 30, quantity = 2\<rparr>]\<rparr>,
                \<lparr>order_id = str ''C3'', customer = str ''Cid'',
                  items = [\<lparr>name = str ''Rice'', price = 40, quantity = 1\<rparr>]\<rparr>]\<rparr>))
   = [\<lparr>order_id = str ''A1'', customer = str ''Bob'',
        items = [\<lparr>name = str ''Cola'', price = 20, quantity = 3\<rparr>]\<rparr>,
      \<lparr>order_id = str ''C3'', customer = str ''Cid'',
        items = [\<lparr>name = str ''Rice'', price = 40, quantity = 1\<rparr>]\<rparr>]"
proof -
  let ?s = "\<lparr>stdin = [str ''2''], stdout = [],
      files = [str ''output_orders.json'' \<mapsto>
                 Document [\<lparr>order_id = str ''Z0'', customer = str ''Zoe'',
                             items = [\<lparr>name = str ''Soup'', price = 50, quantity = 1\<rparr>]\<rparr>]],
      orders = [\<lparr>order_id = str ''A1'', customer = str ''Bob'',
                  items = [\<lparr>name = str ''Cola'', price = 20, quantity = 3\<rparr>]\<rparr>,
                \<lparr>order_id = str ''B2'', customer = str ''Amy'',
                  items = [\<lparr>name = str ''Tea'', price = 30, quantity = 2\<rparr>]\<rparr>,
                \<lparr>order_id = str ''C3'', customer = str ''Cid'',
                  items = [\<lparr>name = str ''Rice'', price = 40, quantity = 1\<rparr>]\<rparr>]\<rparr>"
  have 1: "stdin ?s = str ''2'' # []" by simp
  have 2: "py_int no_tables (strip no_tables (str ''2'')) = Some 2" by (simp add: text_defs)
  have 3: "(1::int) \<le> 2" "2 \<le> int (length (orders ?s))" by simp_all
  have 4: "files ?s OUTPUT_FILE \<noteq> Some Undecodable" "files ?s OUTPUT_FILE \<noteq> Some Too_deep"
    by (simp_all add: OUTPUT_FILE_def)
  from process_order_keeps_the_rest [OF 1 2 3 4] show ?thesis by auto
qed

section \<open>Serving an order: what is refused\<close>

lemma listed_frame [simp]:
  "orders (listed s) = orders s" "files (listed s) = files s" "stdin (listed s) = stdin s"
  by (simp_all add: listed_def)

text \<open>
  Claim C3, as the program has it. With an empty pending list \<open>process_order\<close> returns the
  message that nothing is pending, before it prints or reads anything. Otherwise it reads
  a line: an empty line (after trimming) gives the cancellation message; a text that
  \<open>int\<close> rejects raises \<open>ValueError\<close> and a number outside \<open>1 .. length orders\<close> raises
  \<open>IndexError\<close> inside the \<open>try\<close>, and the one handler of line 49 turns both into the same
  message, so the caller cannot tell the two apart. In all these cases no order is
  returned, and the pending list and the files are what they were.
\<close>

theorem process_order_refusals:
  "(orders s = [] \<longrightarrow> process_order U s = (Inr (No_pending_orders, None), s)) \<and>
   (orders s \<noteq> [] \<and> stdin s = line # rest \<longrightarrow>
      (strip U line = [] \<longrightarrow>
         process_order U s = (Inr (Process_cancelled, None), (listed s)\<lparr>stdin := rest\<rparr>)) \<and>
      (strip U line \<noteq> [] \<and> py_int U (strip U line) = None \<longrightarrow>
         serve_choice U (strip U line) ((listed s)\<lparr>stdin := rest\<rparr>) =
           (Inl (ValueError (Invalid_literal (strip U line))), (listed s)\<lparr>stdin := rest\<rparr>) \<and>
         process_order U s = (Inr (Error_invalid_number, None), (listed s)\<lparr>stdin := rest\<rparr>)) \<and>
      (\<forall>k. py_int U (strip U line) = Some k \<and> (k < 1 \<or> int (length (orders s)) < k) \<longrightarrow>
         serve_choice U (strip U line) ((listed s)\<lparr>stdin := rest\<rparr>) =
           (Inl IndexError, (listed s)\<lparr>stdin := rest\<rparr>) \<and>
         process_order U s = (Inr (Error_invalid_number, None), (listed s)\<lparr>stdin := rest\<rparr>))) \<and>
   orders ((listed s)\<lparr>stdin := rest\<rparr>) = orders s \<and>
   files ((listed s)\<lparr>stdin := rest\<rparr>) = files s"
proof (intro conjI impI allI)
  assume "orders s = []"
  then show "process_order U s = (Inr (No_pending_orders, None), s)"
    by (simp add: process_order_def)
next
  assume a: "orders s \<noteq> [] \<and> stdin s = line # rest" and "strip U line = []"
  then show "process_order U s = (Inr (Process_cancelled, None), (listed s)\<lparr>stdin := rest\<rparr>)"
    by (simp add: process_order_prompt [of s line rest])
next
  assume a: "orders s \<noteq> [] \<and> stdin s = line # rest"
    and b: "strip U line \<noteq> [] \<and> py_int U (strip U line) = None"
  from b show 1: "serve_choice U (strip U line) ((listed s)\<lparr>stdin := rest\<rparr>) =
           (Inl (ValueError (Invalid_literal (strip U line))), (listed s)\<lparr>stdin := rest\<rparr>)"
    by (simp add: serve_choice_def)
  from a b show "process_order U s = (Inr (Error_invalid_number, None), (listed s)\<lparr>stdin := rest\<rparr>)"
    by (simp add: process_order_prompt [of s line rest] 1)
next
  fix k
  assume a: "orders s \<noteq> [] \<and> stdin s = line # rest"
    and b: "py_int U (strip U line) = Some k \<and> (k < 1 \<or> int (length (orders s)) < k)"
  from b have ne: "strip U line \<noteq> []" by auto
  from b show 1: "serve_choice U (strip U line) ((listed s)\<lparr>stdin := rest\<rparr>) =
           (Inl IndexError, (listed s)\<lparr>stdin := rest\<rparr>)"
    by (auto simp: serve_choice_def Let_def)
  from a ne show "process_order U s = (Inr (Error_invalid_number, None), (listed s)\<lparr>stdin := rest\<rparr>)"
    by (simp add: process_order_prompt [of s line rest] 1)
qed simp_all

theorem process_order_refusals_witness:
  "fst (process_order no_tables
     \<lparr>stdin = [], stdout = [], files = Map.empty, orders = []\<rparr>) = Inr (No_pending_orders, None) \<and>
   fst (process_order no_tables
     \<lparr>stdin = [str ''  ''], stdout = [], files = Map.empty,
      orders = [\<lparr>order_id = str ''A1'', customer = str ''Bob'',
                  items = [\<lparr>name = str ''Cola'', price = 20, quantity = 3\<rparr>]\<rparr>]\<rparr>)
     = Inr (Process_cancelled, None) \<and>
   fst (process_order no_tables
     \<lparr>stdin = [str ''abc''], stdout = [], files = Map.empty,
      orders = [\<lparr>order_id = str ''A1'', customer = str ''Bob'',
                  items = [\<lparr>name = str ''Cola'', price = 20, quantity = 3\<rparr>]\<rparr>]\<rparr>)
     = Inr (Error_invalid_number, None) \<and>
   fst (process_order no_tables
     \<lparr>stdin = [str ''0''], stdout = [], files = Map.empty,
      orders = [\<lparr>order_id = str ''A1'', customer = str ''Bob'',
                  items = [\<lparr>name = str ''Cola'', price = 20, quantity = 3\<rparr>]\<rparr>]\<rparr>)
     = Inr (Error_invalid_number, None)"
proof -
  let ?os = "[\<lparr>order_id = str ''A1'', customer = str ''Bob'',
                items = [\<lparr>name = str ''Cola'', price = 20, quantity = 3\<rparr>]\<rparr>]"
  have 1: "strip no_tables (str ''  '') = []" "strip no_tables (str ''abc'') \<noteq> []"
    "py_int no_tables (strip no_tables (str ''abc'')) = None"
    "py_int no_tables (strip no_tables (str ''0'')) = Some 0"
    by (simp_all add: text_defs)
  from process_order_refusals
    [of "\<lparr>stdin = [], stdout = [], files = Map.empty, orders = []\<rparr>" no_tables]
  have a: "fst (process_order no_tables \<lparr>stdin = [], stdout = [], files = Map.empty, orders = []\<rparr>)
             = Inr (No_pending_orders, None)"
    by simp
  from process_order_refusals
    [of "\<lparr>stdin = [str ''  ''], stdout = [], files = Map.empty, orders = ?os\<rparr>" no_tables
        "str ''  ''" "[]"] 1
  have b: "fst (process_order no_tables
                  \<lparr>stdin = [str ''  ''], stdout = [], files = Map.empty, orders = ?os\<rparr>)
             = Inr (Process_cancelled, None)"
    by simp
  from process_order_refusals
    [of "\<lparr>stdin = [str ''abc''], stdout = [], files = Map.empty, orders = ?os\<rparr>" no_tables
        "str ''abc''" "[]"] 1
  have c: "fst (process_order no_tables
                  \<lparr>stdin = [str ''abc''], stdout = [], files = Map.empty, orders = ?os\<rparr>)
             = Inr (Error_invalid_number, None)"
    by simp
  from process_order_refusals
    [of "\<lparr>stdin = [str ''0''], stdout = [], files = Map.empty, orders = ?os\<rparr>" no_tables
        "str ''0''" "[]"] 1
  have d: "fst (process_order no_tables
                  \<lparr>stdin = [str ''0''], stdout = [], files = Map.empty, orders = ?os\<rparr>)
             = Inr (Error_invalid_number, None)"
    by simp
  from a b c d show ?thesis by simp
qed

text \<open>
  A selection that is not a number and a selection that is out of range give the same
  result: the claim that the two are failures of distinct kinds does not hold of what
  \<open>process_order\<close> returns. The lines are ASCII, so the tables are not looked at.
\<close>

theorem process_order_same_refusal:
  "fst (process_order no_tables
     \<lparr>stdin = [str ''abc''], stdout = [], files = Map.empty,
      orders = [\<lparr>order_id = str ''A1'', customer = str ''Bob'',
                  items = [\<lparr>name = str ''Cola'', price = 20, quantity = 3\<rparr>]\<rparr>]\<rparr>)
   = fst (process_order no_tables
     \<lparr>stdin = [str ''5''], stdout = [], files = Map.empty,
      orders = [\<lparr>order_id = str ''A1'', customer = str ''Bob'',
                  items = [\<lparr>name = str ''Cola'', price = 20, quantity = 3\<rparr>]\<rparr>]\<rparr>)"
  by (simp add: process_order_def serve_choice_def input_def print_def Let_def text_defs)

section \<open>Adding an order: one turn of the item loop, and the call as a whole\<close>

lemma input_Nil:
  "stdin s = [] \<Longrightarrow> input p s = (Inl EOFError, s\<lparr>stdout := stdout s @ [Out_prompt p]\<rparr>)"
  by (simp add: input_def print_def Let_def)

lemma upper_Nil [simp]: "upper U [] = []"
  by (simp add: upper_def)

lemma read_price_quantity_rejected_price:
  assumes "stdin s = p # rest" "py_int U p = None \<or> (\<exists>v. py_int U p = Some v \<and> v < 0)"
  shows "\<exists>err. read_price_quantity U s =
           (Inl (ValueError err), s\<lparr>stdin := rest, stdout := stdout s @ [Out_prompt Prompt_price]\<rparr>)"
  using assms by (auto simp: read_price_quantity_def input_Cons)

lemma read_price_quantity_rejected_quantity:
  assumes "stdin s = p # q # rest" "py_int U p = Some pv" "0 \<le> pv"
    "py_int U q = None \<or> (\<exists>v. py_int U q = Some v \<and> v \<le> 0)"
  shows "\<exists>err. read_price_quantity U s =
           (Inl (ValueError err),
            s\<lparr>stdin := rest,
              stdout := stdout s @ [Out_prompt Prompt_price, Out_prompt Prompt_quantity]\<rparr>)"
  using assms by (auto simp: read_price_quantity_def input_Cons)

lemma read_price_quantity_accepted:
  assumes "stdin s = p # q # rest" "py_int U p = Some pv" "0 \<le> pv" "py_int U q = Some qv" "1 \<le> qv"
  shows "read_price_quantity U s =
           (Inr (pv, qv),
            s\<lparr>stdin := rest,
              stdout := stdout s @ [Out_prompt Prompt_price, Out_prompt Prompt_quantity]\<rparr>)"
  using assms by (auto simp: read_price_quantity_def input_Cons)

lemma read_items_end:
  assumes "stdin s = l # rest" "strip U l = []" "its \<noteq> []"
  shows "read_items U its s =
           (Inr its, s\<lparr>stdin := rest, stdout := stdout s @ [Out_prompt Prompt_item_name]\<rparr>)"
  using assms by (simp add: read_items.simps [of U its s] input_Cons)

lemma read_items_need_item:
  assumes "stdin s = l # rest" "strip U l = []"
  shows "read_items U [] s =
           read_items U [] (s\<lparr>stdin := rest,
              stdout := stdout s @ [Out_prompt Prompt_item_name, Out_need_item]\<rparr>)"
  using assms by (simp add: read_items.simps [of U "[]" s] input_Cons print_def)

lemma read_items_rejected_price:
  assumes "stdin s = n # p # rest" "strip U n \<noteq> []"
    "py_int U p = None \<or> (\<exists>v. py_int U p = Some v \<and> v < 0)"
  shows "\<exists>err. read_items U its s =
           read_items U its (s\<lparr>stdin := rest,
              stdout := stdout s @ [Out_prompt Prompt_item_name, Out_prompt Prompt_price,
                                    Out_input_error err]\<rparr>)"
proof -
  let ?s1 = "s\<lparr>stdin := p # rest, stdout := stdout s @ [Out_prompt Prompt_item_name]\<rparr>"
  have "stdin ?s1 = p # rest" by simp
  from read_price_quantity_rejected_price [OF this assms(3)]
  obtain err where "read_price_quantity U ?s1 =
      (Inl (ValueError err), ?s1\<lparr>stdin := rest, stdout := stdout ?s1 @ [Out_prompt Prompt_price]\<rparr>)"
    by blast
  with assms(1,2) have "read_items U its s =
           read_items U its (s\<lparr>stdin := rest,
              stdout := stdout s @ [Out_prompt Prompt_item_name, Out_prompt Prompt_price,
                                    Out_input_error err]\<rparr>)"
    by (simp add: read_items.simps [of U its s] input_Cons print_def)
  then show ?thesis by blast
qed

lemma read_items_rejected_quantity:
  assumes "stdin s = n # p # q # rest" "strip U n \<noteq> []" "py_int U p = Some pv" "0 \<le> pv"
    "py_int U q = None \<or> (\<exists>v. py_int U q = Some v \<and> v \<le> 0)"
  shows "\<exists>err. read_items U its s =
           read_items U its (s\<lparr>stdin := rest,
              stdout := stdout s @ [Out_prompt Prompt_item_name, Out_prompt Prompt_price,
                                    Out_prompt Prompt_quantity, Out_input_error err]\<rparr>)"
proof -
  let ?s1 = "s\<lparr>stdin := p # q # rest, stdout := stdout s @ [Out_prompt Prompt_item_name]\<rparr>"
  have "stdin ?s1 = p # q # rest" by simp
  from read_price_quantity_rejected_quantity [OF this assms(3,4,5)]
  obtain err where "read_price_quantity U ?s1 =
      (Inl (ValueError err),
       ?s1\<lparr>stdin := rest,
            stdout := stdout ?s1 @ [Out_prompt Prompt_price, Out_prompt Prompt_quantity]\<rparr>)"
    by blast
  with assms(1,2) have "read_items U its s =
           read_items U its (s\<lparr>stdin := rest,
              stdout := stdout s @ [Out_prompt Prompt_item_name, Out_prompt Prompt_price,
                                    Out_prompt Prompt_quantity, Out_input_error err]\<rparr>)"
    by (simp add: read_items.simps [of U its s] input_Cons print_def)
  then show ?thesis by blast
qed

lemma read_items_accepted:
  assumes "stdin s = n # p # q # rest" "strip U n \<noteq> []" "py_int U p = Some pv" "0 \<le> pv"
    "py_int U q = Some qv" "1 \<le> qv"
  shows "read_items U its s =
           read_items U (its @ [\<lparr>name = strip U n, price = pv, quantity = qv\<rparr>])
             (s\<lparr>stdin := rest,
                stdout := stdout s @ [Out_prompt Prompt_item_name, Out_prompt Prompt_price,
                                      Out_prompt Prompt_quantity]\<rparr>)"
proof -
  let ?s1 = "s\<lparr>stdin := p # q # rest, stdout := stdout s @ [Out_prompt Prompt_item_name]\<rparr>"
  have "stdin ?s1 = p # q # rest" by simp
  from read_price_quantity_accepted [OF this assms(3,4,5,6)] assms(1,2)
  show ?thesis
    by (simp add: read_items.simps [of U its s] input_Cons)
qed

lemma add_order_Nil: "stdin s = [] \<Longrightarrow> fst (add_order U s) = Inl EOFError"
  by (simp add: add_order_def input_Nil)

lemma add_order_Cons:
  assumes "stdin s = l1 # rest"
  shows "add_order U s =
    (let s1 = s\<lparr>stdin := rest, stdout := stdout s @ [Out_prompt Prompt_order_id]\<rparr>;
         oid = upper U (strip U l1)
     in if oid = [] then (Inr Error_order_id_empty, s1)
        else if list_ex (\<lambda>ord. order_id ord = oid) (orders s)
        then (Inr (Error_order_id_exists oid), s1)
        else (case rest of
                [] \<Rightarrow> (Inl EOFError, asked s [])
              | l2 # rest2 \<Rightarrow>
                  if strip U l2 = [] then (Inr Error_customer_empty, asked s rest2)
                  else (case read_items U [] (asked s rest2) of
                          (Inl e, s3) \<Rightarrow> (Inl e, s3)
                        | (Inr its, s3) \<Rightarrow>
                            (Inr (Order_added oid),
                             s3\<lparr>orders := orders s3 @
                                    [\<lparr>order_id = oid, customer = strip U l2, items = its\<rparr>],
                                files := (files s3)(INPUT_FILE \<mapsto> Document (orders s3 @
                                    [\<lparr>order_id = oid, customer = strip U l2, items = its\<rparr>]))\<rparr>))))"
proof (cases rest)
  case Nil
  with assms show ?thesis
    by (simp add: add_order_def input_Cons input_Nil Let_def asked_def)
next
  case (Cons l2 rest2)
  with assms show ?thesis
    by (simp add: add_order_def input_Cons Let_def asked_def save_orders_ok
             split: prod.splits sum.splits)
qed

lemma asked_frame [simp]:
  "orders (asked s rest) = orders s" "files (asked s rest) = files s"
  "stdin (asked s rest) = rest"
  by (simp_all add: asked_def)

lemma add_order_unchanged:
  assumes "add_order U s = (r, s')" "\<forall>x. r \<noteq> Inr (Order_added x)"
  shows "orders s' = orders s \<and> files s' = files s"
proof (cases "stdin s")
  case Nil
  with assms show ?thesis by (auto simp: add_order_def input_Nil)
next
  case (Cons l1 rest)
  from assms show ?thesis
    unfolding add_order_Cons [OF Cons]
    by (auto simp: Let_def split: if_splits list.splits prod.splits sum.splits
             dest: read_items_props)
qed

lemma add_order_added:
  assumes "add_order U s = (Inr (Order_added x), s')"
  shows "\<exists>l1 l2 rest its s3.
     stdin s = l1 # l2 # rest \<and> x = upper U (strip U l1) \<and> x \<noteq> [] \<and>
     \<not> list_ex (\<lambda>ord. order_id ord = x) (orders s) \<and> strip U l2 \<noteq> [] \<and>
     read_items U [] (asked s rest) = (Inr its, s3) \<and>
     s' = s3\<lparr>orders := orders s @ [\<lparr>order_id = x, customer = strip U l2, items = its\<rparr>],
             files := (files s)(INPUT_FILE \<mapsto> Document (orders s @
                        [\<lparr>order_id = x, customer = strip U l2, items = its\<rparr>]))\<rparr>"
proof (cases "stdin s")
  case Nil
  with assms add_order_Nil [of s U] show ?thesis by simp
next
  case (Cons l1 rest)
  from assms show ?thesis
    unfolding add_order_Cons [OF Cons]
    using Cons
    by (auto simp: Let_def split: if_splits list.splits prod.splits sum.splits
             dest: read_items_props)
qed

section \<open>Adding an order: what is refused\<close>

text \<open>
  Claim C2, as the program has it. Whenever \<open>add_order\<close> does not return the success
  message, the pending list and the files are what they were. It returns an error message
  when the id entered, trimmed and put in upper case, is empty, when it equals an id
  stored in the pending list (the stored ids are compared as they are, so the comparison
  ignores the case of the ids when the stored ids are in upper case, as those that
  \<open>add_order\<close> stores are), and when the customer name is empty after trimming. Ending the
  entry of items while there is none is not a failure of the call: line 70 prints a
  message and the loop asks for an item again.
\<close>

theorem add_order_refusals:
  "(\<forall>r s'. add_order U s = (r, s') \<and> (\<forall>x. r \<noteq> Inr (Order_added x)) \<longrightarrow>
             orders s' = orders s \<and> files s' = files s) \<and>
   (\<forall>l1 rest. stdin s = l1 # rest \<longrightarrow>
      (strip U l1 = [] \<or> upper U (strip U l1) = [] \<longrightarrow>
         fst (add_order U s) = Inr Error_order_id_empty) \<and>
      (upper U (strip U l1) \<noteq> [] \<and>
       (\<exists>ord \<in> set (orders s). order_id ord = upper U (strip U l1)) \<longrightarrow>
         fst (add_order U s) = Inr (Error_order_id_exists (upper U (strip U l1)))) \<and>
      (upper U (strip U l1) \<noteq> [] \<and>
       (\<forall>ord \<in> set (orders s). upper U (order_id ord) = order_id ord) \<and>
       (\<exists>ord \<in> set (orders s). upper U (order_id ord) = upper U (strip U l1)) \<longrightarrow>
         fst (add_order U s) = Inr (Error_order_id_exists (upper U (strip U l1)))) \<and>
      (\<forall>l2 rest2. rest = l2 # rest2 \<and> upper U (strip U l1) \<noteq> [] \<and>
         \<not> (\<exists>ord \<in> set (orders s). order_id ord = upper U (strip U l1)) \<and>
         strip U l2 = [] \<longrightarrow>
         fst (add_order U s) = Inr Error_customer_empty)) \<and>
   (\<forall>l rest. stdin s = l # rest \<and> strip U l = [] \<longrightarrow>
      read_items U [] s =
        read_items U [] (s\<lparr>stdin := rest,
                           stdout := stdout s @ [Out_prompt Prompt_item_name, Out_need_item]\<rparr>))"
proof (intro conjI allI impI)
  fix r s'
  assume "add_order U s = (r, s') \<and> (\<forall>x. r \<noteq> Inr (Order_added x))"
  then have "orders s' = orders s \<and> files s' = files s"
    using add_order_unchanged [of U s r s'] by blast
  then show "orders s' = orders s" "files s' = files s" by simp_all
next
  fix l1 rest
  assume "stdin s = l1 # rest" "strip U l1 = [] \<or> upper U (strip U l1) = []"
  then show "fst (add_order U s) = Inr Error_order_id_empty"
    by (auto simp: add_order_Cons)
next
  fix l1 rest
  assume "stdin s = l1 # rest"
    and "upper U (strip U l1) \<noteq> [] \<and>
         (\<exists>ord \<in> set (orders s). order_id ord = upper U (strip U l1))"
  then show "fst (add_order U s) = Inr (Error_order_id_exists (upper U (strip U l1)))"
    by (auto simp: add_order_Cons Let_def list_ex_iff)
next
  fix l1 rest
  assume "stdin s = l1 # rest"
    and "upper U (strip U l1) \<noteq> [] \<and>
         (\<forall>ord \<in> set (orders s). upper U (order_id ord) = order_id ord) \<and>
         (\<exists>ord \<in> set (orders s). upper U (order_id ord) = upper U (strip U l1))"
  then show "fst (add_order U s) = Inr (Error_order_id_exists (upper U (strip U l1)))"
    by (auto simp: add_order_Cons Let_def list_ex_iff)
next
  fix l1 rest l2 rest2
  assume "stdin s = l1 # rest"
    and "rest = l2 # rest2 \<and> upper U (strip U l1) \<noteq> [] \<and>
         \<not> (\<exists>ord \<in> set (orders s). order_id ord = upper U (strip U l1)) \<and> strip U l2 = []"
  then show "fst (add_order U s) = Inr Error_customer_empty"
    by (auto simp: add_order_Cons Let_def list_ex_iff)
next
  fix l rest
  assume "stdin s = l # rest \<and> strip U l = []"
  then show "read_items U [] s =
        read_items U [] (s\<lparr>stdin := rest,
                           stdout := stdout s @ [Out_prompt Prompt_item_name, Out_need_item]\<rparr>)"
    using read_items_need_item [of s l rest U] by simp
qed

theorem add_order_refusals_witness:
  "fst (add_order no_tables
     \<lparr>stdin = [str ''  ''], stdout = [], files = Map.empty, orders = []\<rparr>)
     = Inr Error_order_id_empty \<and>
   fst (add_order no_tables
     \<lparr>stdin = [str '' a1 ''], stdout = [], files = Map.empty,
      orders = [\<lparr>order_id = str ''A1'', customer = str ''Bob'',
                  items = [\<lparr>name = str ''Cola'', price = 20, quantity = 3\<rparr>]\<rparr>]\<rparr>)
     = Inr (Error_order_id_exists (str ''A1'')) \<and>
   fst (add_order no_tables
     \<lparr>stdin = [str ''b2'', str '' ''], stdout = [], files = Map.empty, orders = []\<rparr>)
     = Inr Error_customer_empty \<and>
   orders (snd (add_order no_tables
     \<lparr>stdin = [str '' a1 ''], stdout = [], files = Map.empty,
      orders = [\<lparr>order_id = str ''A1'', customer = str ''Bob'',
                  items = [\<lparr>name = str ''Cola'', price = 20, quantity = 3\<rparr>]\<rparr>]\<rparr>))
     = [\<lparr>order_id = str ''A1'', customer = str ''Bob'',
          items = [\<lparr>name = str ''Cola'', price = 20, quantity = 3\<rparr>]\<rparr>]"
proof -
  let ?os = "[\<lparr>order_id = str ''A1'', customer = str ''Bob'',
                items = [\<lparr>name = str ''Cola'', price = 20, quantity = 3\<rparr>]\<rparr>]"
  let ?s1 = "\<lparr>stdin = [str ''  ''], stdout = [], files = Map.empty, orders = []\<rparr>"
  let ?s2 = "\<lparr>stdin = [str '' a1 ''], stdout = [], files = Map.empty, orders = ?os\<rparr>"
  let ?s3 = "\<lparr>stdin = [str ''b2'', str '' ''], stdout = [], files = Map.empty, orders = []\<rparr>"
  have e: "strip no_tables (str ''  '') = []"
    "upper no_tables (strip no_tables (str '' a1 '')) = str ''A1''"
    "upper no_tables (strip no_tables (str ''b2'')) = str ''B2''"
    "strip no_tables (str '' '') = []"
    by (simp_all add: text_defs)
  have n: "str ''A1'' \<noteq> []" "str ''B2'' \<noteq> []" by (simp_all add: str_def)
  have a: "fst (add_order no_tables ?s1) = Inr Error_order_id_empty"
    using add_order_refusals [of no_tables ?s1] e by simp
  have b: "fst (add_order no_tables ?s2) = Inr (Error_order_id_exists (str ''A1''))"
    using add_order_refusals [of no_tables ?s2] e n by simp
  have c: "fst (add_order no_tables ?s3) = Inr Error_customer_empty"
    using add_order_refusals [of no_tables ?s3] e n by simp
  have "\<forall>x. fst (add_order no_tables ?s2) \<noteq> Inr (Order_added x)" using b by simp
  then have d: "orders (snd (add_order no_tables ?s2)) = orders ?s2"
    using add_order_refusals [of no_tables ?s2] by (cases "add_order no_tables ?s2") auto
  from a b c d show ?thesis by simp
qed

text \<open>
  Two runs on ASCII lines, where the tables are not looked at. In the first the entry of
  items is ended while the list of items is empty: the message of line 70 is printed, the
  loop goes on, and the call adds the order. In the second the pending list holds an
  order whose stored id is in lower case, and that very id is entered: it is put in upper
  case, the stored id is not, the two differ, and the call adds a second order.
\<close>

theorem add_order_without_items_goes_on:
  "fst (add_order no_tables
     \<lparr>stdin = [str ''a1'', str ''Bob'', str '''', str ''Cola'', str ''20'', str ''3'', str ''''],
      stdout = [], files = Map.empty, orders = []\<rparr>) = Inr (Order_added (str ''A1'')) \<and>
   orders (snd (add_order no_tables
     \<lparr>stdin = [str ''a1'', str ''Bob'', str '''', str ''Cola'', str ''20'', str ''3'', str ''''],
      stdout = [], files = Map.empty, orders = []\<rparr>))
     = [\<lparr>order_id = str ''A1'', customer = str ''Bob'',
          items = [\<lparr>name = str ''Cola'', price = 20, quantity = 3\<rparr>]\<rparr>] \<and>
   stdout (snd (add_order no_tables
     \<lparr>stdin = [str ''a1'', str ''Bob'', str '''', str ''Cola'', str ''20'', str ''3'', str ''''],
      stdout = [], files = Map.empty, orders = []\<rparr>)) ! 3 = Out_need_item \<and>
   fst (add_order no_tables
     \<lparr>stdin = [str ''a1'', str ''Amy'', str ''Tea'', str ''30'', str ''2'', str ''''],
      stdout = [], files = Map.empty,
      orders = [\<lparr>order_id = str ''a1'', customer = str ''Bob'',
                  items = [\<lparr>name = str ''Cola'', price = 20, quantity = 3\<rparr>]\<rparr>]\<rparr>)
     = Inr (Order_added (str ''A1''))"
  by (simp add: add_order_def read_items.simps read_price_quantity_def input_def print_def
      Let_def text_defs save_orders_def INPUT_FILE_def)

section \<open>Adding an order: what a successful call does\<close>

text \<open>
  Claim C4. When \<open>add_order\<close> returns a message that is not an error, the message is the
  success message made from the id of the new order; the pending list is the list before
  with one order appended, whose id is the id entered, trimmed and in upper case, not empty
  and not the id of any order that was pending, whose customer is the name entered,
  trimmed and not empty, and whose items are those the item loop collected from the lines
  that follow, at least one; the pending list is written to the input file, and no other
  file is changed.
\<close>

theorem add_order_appends:
  assumes "add_order U s = (Inr m, s')" and "\<not> is_error m"
  shows "\<exists>l1 l2 rest its s3.
     stdin s = l1 # l2 # rest \<and>
     m = Order_added (upper U (strip U l1)) \<and>
     upper U (strip U l1) \<noteq> [] \<and> upper U (strip U l1) \<notin> order_id ` set (orders s) \<and>
     strip U l2 \<noteq> [] \<and> its \<noteq> [] \<and>
     read_items U [] (asked s rest) = (Inr its, s3) \<and>
     orders s' =
       orders s @ [\<lparr>order_id = upper U (strip U l1), customer = strip U l2, items = its\<rparr>] \<and>
     load_data INPUT_FILE s' = Inr (orders s') \<and>
     (\<forall>path. path \<noteq> INPUT_FILE \<longrightarrow> files s' path = files s path)"
proof -
  have "\<exists>x. m = Order_added x"
  proof (cases "stdin s")
    case Nil
    with assms(1) add_order_Nil [of s U] show ?thesis by simp
  next
    case (Cons l1 rest)
    from assms show ?thesis
      unfolding add_order_Cons [OF Cons]
      by (auto simp: Let_def split: if_splits list.splits prod.splits sum.splits)
  qed
  then obtain x where m: "m = Order_added x" by blast
  from add_order_added [OF assms(1) [unfolded m]]
  obtain l1 l2 rest its s3 where
    1: "stdin s = l1 # l2 # rest" "x = upper U (strip U l1)" "x \<noteq> []"
       "\<not> list_ex (\<lambda>ord. order_id ord = x) (orders s)" "strip U l2 \<noteq> []"
       "read_items U [] (asked s rest) = (Inr its, s3)"
    and s': "s' = s3\<lparr>orders := orders s @ [\<lparr>order_id = x, customer = strip U l2, items = its\<rparr>],
             files := (files s)(INPUT_FILE \<mapsto> Document (orders s @
                        [\<lparr>order_id = x, customer = strip U l2, items = its\<rparr>]))\<rparr>"
    by blast
  from read_items_props [OF 1(6)] have its: "its \<noteq> []" by simp
  from 1(4) have fresh: "x \<notin> order_id ` set (orders s)" by (auto simp: list_ex_iff)
  have ld: "load_data INPUT_FILE s' = Inr (orders s')"
    by (rule load_data_Document) (simp_all add: s')
  have other: "\<forall>path. path \<noteq> INPUT_FILE \<longrightarrow> files s' path = files s path"
    by (simp add: s')
  have os: "orders s' = orders s @ [\<lparr>order_id = x, customer = strip U l2, items = its\<rparr>]"
    by (simp add: s')
  from 1 m its fresh ld other os show ?thesis by blast
qed

theorem add_order_appends_witness:
  "orders (snd (add_order no_tables
     \<lparr>stdin = [str '' b2 '', str '' Amy '', str ''Tea'', str ''30'', str ''2'', str ''''],
      stdout = [], files = Map.empty,
      orders = [\<lparr>order_id = str ''A1'', customer = str ''Bob'',
                  items = [\<lparr>name = str ''Cola'', price = 20, quantity = 3\<rparr>]\<rparr>]\<rparr>))
   = [\<lparr>order_id = str ''A1'', customer = str ''Bob'',
        items = [\<lparr>name = str ''Cola'', price = 20, quantity = 3\<rparr>]\<rparr>,
      \<lparr>order_id = str ''B2'', customer = str ''Amy'',
        items = [\<lparr>name = str ''Tea'', price = 30, quantity = 2\<rparr>]\<rparr>]"
proof -
  let ?s = "\<lparr>stdin = [str '' b2 '', str '' Amy '', str ''Tea'', str ''30'', str ''2'', str ''''],
      stdout = [], files = Map.empty,
      orders = [\<lparr>order_id = str ''A1'', customer = str ''Bob'',
                  items = [\<lparr>name = str ''Cola'', price = 20, quantity = 3\<rparr>]\<rparr>]\<rparr>"
  have f: "fst (add_order no_tables ?s) = Inr (Order_added (str ''B2''))"
    by (simp add: add_order_def read_items.simps read_price_quantity_def input_def print_def
        Let_def text_defs save_orders_def INPUT_FILE_def)
  then have run: "add_order no_tables ?s = (Inr (Order_added (str ''B2'')), snd (add_order no_tables ?s))"
    by (cases "add_order no_tables ?s") simp
  have ne: "\<not> is_error (Order_added (str ''B2''))" by simp
  from add_order_appends [OF run ne]
  obtain l1 l2 rest its s3 where
    1: "stdin ?s = l1 # l2 # rest" "read_items no_tables [] (asked ?s rest) = (Inr its, s3)"
       "orders (snd (add_order no_tables ?s)) =
          orders ?s @ [\<lparr>order_id = upper no_tables (strip no_tables l1),
                         customer = strip no_tables l2, items = its\<rparr>]"
    by blast
  from 1(1) have l: "l1 = str '' b2 ''" "l2 = str '' Amy ''"
    "rest = [str ''Tea'', str ''30'', str ''2'', str '''']"
    by simp_all
  have "read_items no_tables [] (asked ?s [str ''Tea'', str ''30'', str ''2'', str '''']) =
          (Inr [\<lparr>name = str ''Tea'', price = 30, quantity = 2\<rparr>],
           snd (read_items no_tables [] (asked ?s [str ''Tea'', str ''30'', str ''2'', str ''''])))"
    by (simp add: asked_def read_items.simps read_price_quantity_def input_def print_def
        Let_def text_defs)
  with 1(2) l have "its = [\<lparr>name = str ''Tea'', price = 30, quantity = 2\<rparr>]" by simp
  with 1(3) l show ?thesis by (simp add: text_defs)
qed

text \<open>
  Claim C10. Every item of an order that \<open>add_order\<close> appends has a name that is not
  empty, a price of at least zero and a quantity of at least one, and so has every item
  the loop adds to those it was started with. An empty name creates no item: with items
  collected it ends the loop. When the price, or the quantity, does not parse or is out of
  range, the turn ends with the items as they were: the name (and the price) already
  entered are dropped, the error is printed, and the loop asks for a name again.
\<close>

theorem add_order_items_valid:
  "(\<forall>x s'. add_order U s = (Inr (Order_added x), s') \<longrightarrow>
      (\<exists>new. orders s' = orders s @ [new] \<and> items new \<noteq> [] \<and>
         (\<forall>it \<in> set (items new). name it \<noteq> [] \<and> 0 \<le> price it \<and> 1 \<le> quantity it))) \<and>
   (\<forall>its' s'. read_items U its s = (Inr its', s') \<longrightarrow>
      (\<exists>new. its' = its @ new \<and>
         (\<forall>it \<in> set new. name it \<noteq> [] \<and> 0 \<le> price it \<and> 1 \<le> quantity it))) \<and>
   (\<forall>l rest. stdin s = l # rest \<and> strip U l = [] \<and> its \<noteq> [] \<longrightarrow>
      read_items U its s =
        (Inr its, s\<lparr>stdin := rest, stdout := stdout s @ [Out_prompt Prompt_item_name]\<rparr>)) \<and>
   (\<forall>n p rest. stdin s = n # p # rest \<and> strip U n \<noteq> [] \<and>
        (py_int U p = None \<or> (\<exists>v. py_int U p = Some v \<and> v < 0)) \<longrightarrow>
      (\<exists>err. read_items U its s =
         read_items U its (s\<lparr>stdin := rest,
            stdout := stdout s @ [Out_prompt Prompt_item_name, Out_prompt Prompt_price,
                                  Out_input_error err]\<rparr>))) \<and>
   (\<forall>n p q rest pv. stdin s = n # p # q # rest \<and> strip U n \<noteq> [] \<and>
        py_int U p = Some pv \<and> 0 \<le> pv \<and>
        (py_int U q = None \<or> (\<exists>v. py_int U q = Some v \<and> v \<le> 0)) \<longrightarrow>
      (\<exists>err. read_items U its s =
         read_items U its (s\<lparr>stdin := rest,
            stdout := stdout s @ [Out_prompt Prompt_item_name, Out_prompt Prompt_price,
                                  Out_prompt Prompt_quantity, Out_input_error err]\<rparr>)))"
proof (intro conjI allI impI)
  fix x s'
  assume "add_order U s = (Inr (Order_added x), s')"
  from add_order_added [OF this]
  obtain l1 l2 rest itsa s3 where
    1: "read_items U [] (asked s rest) = (Inr itsa, s3)"
    and s': "s' = s3\<lparr>orders := orders s @ [\<lparr>order_id = x, customer = strip U l2, items = itsa\<rparr>],
             files := (files s)(INPUT_FILE \<mapsto> Document (orders s @
                        [\<lparr>order_id = x, customer = strip U l2, items = itsa\<rparr>]))\<rparr>"
    by blast
  from read_items_props [OF 1] have "itsa \<noteq> []" "items_ok itsa" by auto
  then show "\<exists>new. orders s' = orders s @ [new] \<and> items new \<noteq> [] \<and>
         (\<forall>it \<in> set (items new). name it \<noteq> [] \<and> 0 \<le> price it \<and> 1 \<le> quantity it)"
    by (intro exI [of _ "\<lparr>order_id = x, customer = strip U l2, items = itsa\<rparr>"])
       (simp add: s' items_ok_def list_all_iff)
next
  fix its' s'
  assume "read_items U its s = (Inr its', s')"
  from read_items_props [OF this]
  show "\<exists>new. its' = its @ new \<and>
         (\<forall>it \<in> set new. name it \<noteq> [] \<and> 0 \<le> price it \<and> 1 \<le> quantity it)"
    by (auto simp: items_ok_def list_all_iff)
next
  fix l rest
  assume "stdin s = l # rest \<and> strip U l = [] \<and> its \<noteq> []"
  then show "read_items U its s =
        (Inr its, s\<lparr>stdin := rest, stdout := stdout s @ [Out_prompt Prompt_item_name]\<rparr>)"
    using read_items_end [of s l rest U its] by simp
next
  fix n p rest
  assume "stdin s = n # p # rest \<and> strip U n \<noteq> [] \<and>
        (py_int U p = None \<or> (\<exists>v. py_int U p = Some v \<and> v < 0))"
  then show "\<exists>err. read_items U its s =
         read_items U its (s\<lparr>stdin := rest,
            stdout := stdout s @ [Out_prompt Prompt_item_name, Out_prompt Prompt_price,
                                  Out_input_error err]\<rparr>)"
    using read_items_rejected_price [of s n p rest U its] by blast
next
  fix n p q rest pv
  assume "stdin s = n # p # q # rest \<and> strip U n \<noteq> [] \<and>
        py_int U p = Some pv \<and> 0 \<le> pv \<and>
        (py_int U q = None \<or> (\<exists>v. py_int U q = Some v \<and> v \<le> 0))"
  then show "\<exists>err. read_items U its s =
         read_items U its (s\<lparr>stdin := rest,
            stdout := stdout s @ [Out_prompt Prompt_item_name, Out_prompt Prompt_price,
                                  Out_prompt Prompt_quantity, Out_input_error err]\<rparr>)"
    using read_items_rejected_quantity [of s n p q rest U pv its] by blast
qed

theorem add_order_items_valid_witness:
  "items (last (orders (snd (add_order no_tables
     \<lparr>stdin = [str ''a1'', str ''Bob'', str ''Cola'', str ''20'', str ''x'', str ''Tea'',
               str ''-3'', str ''Rice'', str ''40'', str ''1'', str ''''],
      stdout = [], files = Map.empty, orders = []\<rparr>))))
   = [\<lparr>name = str ''Rice'', price = 40, quantity = 1\<rparr>]"
proof -
  let ?s = "\<lparr>stdin = [str ''a1'', str ''Bob'', str ''Cola'', str ''20'', str ''x'', str ''Tea'',
               str ''-3'', str ''Rice'', str ''40'', str ''1'', str ''''],
      stdout = [], files = Map.empty, orders = []\<rparr>"
  have f: "fst (add_order no_tables ?s) = Inr (Order_added (str ''A1''))"
    by (simp add: add_order_def read_items.simps read_price_quantity_def input_def print_def
        Let_def text_defs save_orders_def INPUT_FILE_def)
  then have run: "add_order no_tables ?s = (Inr (Order_added (str ''A1'')), snd (add_order no_tables ?s))"
    by (cases "add_order no_tables ?s") simp
  from add_order_items_valid [where U = no_tables and s = ?s and its = "[]",
      THEN conjunct1, rule_format, OF run]
  obtain new where
    1: "orders (snd (add_order no_tables ?s)) = orders ?s @ [new]" "items new \<noteq> []"
       "\<forall>it \<in> set (items new). name it \<noteq> [] \<and> 0 \<le> price it \<and> 1 \<le> quantity it"
    by blast
  have "orders (snd (add_order no_tables ?s)) =
          [\<lparr>order_id = str ''A1'', customer = str ''Bob'',
            items = [\<lparr>name = str ''Rice'', price = 40, quantity = 1\<rparr>]\<rparr>]"
    by (simp add: add_order_def read_items.simps read_price_quantity_def input_def print_def
        Let_def text_defs save_orders_def INPUT_FILE_def)
  with 1(1) have "new = \<lparr>order_id = str ''A1'', customer = str ''Bob'',
            items = [\<lparr>name = str ''Rice'', price = 40, quantity = 1\<rparr>]\<rparr>"
    by simp
  with 1(1) show ?thesis by simp
qed

section \<open>Menu: the transitions of a turn\<close>

lemma read_price_quantity_raises:
  "read_price_quantity U s = (Inl e, s') \<Longrightarrow> e = EOFError \<or> (\<exists>v. e = ValueError v)"
  unfolding read_price_quantity_def
  by (auto simp: input_def Let_def split: prod.splits sum.splits option.splits if_splits list.splits)

lemma read_items_raises:
  "read_items U its s = (Inl e, s') \<Longrightarrow> e = EOFError"
proof (induction U its s arbitrary: s' rule: read_items.induct)
  case (1 U its s)
  obtain x s1 where inp: "input Prompt_item_name s = (x, s1)" by (cases "input Prompt_item_name s")
  show ?case
  proof (cases x)
    case (Inl e1)
    with inp have "e1 = EOFError"
      by (auto simp: input_def Let_def split: list.splits)
    with Inl inp "1.prems" show ?thesis
      by (simp add: read_items.simps [of U its s])
  next
    case (Inr l)
    note IH = "1.IH" [OF inp [symmetric] Inr refl]
    show ?thesis
    proof (cases "strip U l = []")
      case True
      show ?thesis
      proof (cases "length its = 0")
        case True
        with \<open>strip U l = []\<close> inp Inr "1.prems"
        have "read_items U its (print Out_need_item s1) = (Inl e, s')"
          by (simp add: read_items.simps [of U its s])
        from IH(1) [OF \<open>strip U l = []\<close> True this] show ?thesis .
      next
        case False
        with \<open>strip U l = []\<close> inp Inr "1.prems" show ?thesis
          by (simp add: read_items.simps [of U its s])
      qed
    next
      case False
      obtain y s2 where rpq: "read_price_quantity U s1 = (y, s2)"
        by (cases "read_price_quantity U s1")
      show ?thesis
      proof (cases y)
        case (Inr pq)
        obtain p q where pq: "pq = (p, q)" by (cases pq)
        with False inp \<open>x = Inr l\<close> rpq Inr "1.prems"
        have "read_items U (its @ [\<lparr>name = strip U l, price = p, quantity = q\<rparr>]) s2 = (Inl e, s')"
          by (simp add: read_items.simps [of U its s])
        from IH(3) [OF False rpq [symmetric] Inr pq [symmetric] this] show ?thesis .
      next
        case (Inl e2)
        from read_price_quantity_raises [OF rpq [unfolded Inl]]
        show ?thesis
        proof
          assume "e2 = EOFError"
          with False inp \<open>x = Inr l\<close> rpq Inl "1.prems" show ?thesis
            by (simp add: read_items.simps [of U its s])
        next
          assume "\<exists>v. e2 = ValueError v"
          then obtain v where v: "e2 = ValueError v" by blast
          with False inp \<open>x = Inr l\<close> rpq Inl "1.prems"
          have "read_items U its (print (Out_input_error v) s2) = (Inl e, s')"
            by (simp add: read_items.simps [of U its s])
          from IH(2) [OF False rpq [symmetric] Inl v this] show ?thesis .
        qed
      qed
    qed
  qed
qed

lemma add_order_raises: "add_order U s = (Inl e, s') \<Longrightarrow> e = EOFError"
proof (cases "stdin s")
  case Nil
  assume "add_order U s = (Inl e, s')"
  with Nil add_order_Nil [of s U] show ?thesis by simp
next
  case (Cons l1 rest)
  assume "add_order U s = (Inl e, s')"
  then show ?thesis
    unfolding add_order_Cons [OF Cons]
    by (auto simp: Let_def split: if_splits list.splits prod.splits sum.splits
             dest: read_items_raises)
qed

lemma serve_choice_raises:
  "serve_choice U c s = (Inl e, s') \<Longrightarrow>
     (\<exists>v. e = ValueError v) \<or> e = IndexError \<or>
     (e = RecursionError \<and> files s OUTPUT_FILE = Some Too_deep)"
  by (auto simp: serve_choice_def Let_def save_orders_ok load_data_def json_load_def
           split: option.splits if_splits sum.splits file_content.splits exn.splits
                  value_error.splits)

lemma process_order_raises:
  "process_order U s = (Inl e, s') \<Longrightarrow>
     e = EOFError \<or> (e = RecursionError \<and> files s OUTPUT_FILE = Some Too_deep)"
proof (cases "orders s = []")
  case True
  assume "process_order U s = (Inl e, s')"
  with True show ?thesis by (simp add: process_order_def)
next
  case False
  assume a: "process_order U s = (Inl e, s')"
  show ?thesis
  proof (cases "stdin s")
    case Nil
    with a False show ?thesis
      by (auto simp: process_order_def Let_def input_Nil)
  next
    case (Cons line rest)
    obtain r s3 where sc: "serve_choice U (strip U line) ((listed s)\<lparr>stdin := rest\<rparr>) = (r, s3)"
      by (cases "serve_choice U (strip U line) ((listed s)\<lparr>stdin := rest\<rparr>)")
    from a show ?thesis
      unfolding process_order_prompt [OF False Cons]
      using serve_choice_raises [of U "strip U line" "(listed s)\<lparr>stdin := rest\<rparr>"]
      by (auto simp: Let_def sc split: if_splits sum.splits exn.splits)
  qed
qed

lemma process_order_returns:
  assumes "orders s = [] \<or> stdin s \<noteq> []" and "files s OUTPUT_FILE \<noteq> Some Too_deep"
  shows "\<exists>r. fst (process_order U s) = Inr r"
proof (cases "orders s = []")
  case True
  then show ?thesis by (simp add: process_order_def)
next
  case False
  with assms obtain line rest where Cons: "stdin s = line # rest" by (cases "stdin s") auto
  obtain r s3 where sc: "serve_choice U (strip U line) ((listed s)\<lparr>stdin := rest\<rparr>) = (r, s3)"
    by (cases "serve_choice U (strip U line) ((listed s)\<lparr>stdin := rest\<rparr>)")
  show ?thesis
    unfolding process_order_prompt [OF False Cons]
    using serve_choice_raises [of U "strip U line" "(listed s)\<lparr>stdin := rest\<rparr>"] assms(2)
    by (auto simp: Let_def sc split: if_splits sum.splits exn.splits)
qed

lemma options_differ:
  "str ''2'' \<noteq> str ''1''" "str ''3'' \<noteq> str ''1''" "str ''3'' \<noteq> str ''2''"
  "str ''1'' \<noteq> []" "str ''2'' \<noteq> []" "str ''3'' \<noteq> []"
  "str ''1'' \<noteq> str ''4''" "str ''2'' \<noteq> str ''4''" "str ''3'' \<noteq> str ''4''"
  by (simp_all add: str_def)

lemma menu_step_Cons:
  assumes "stdin s = l # rest"
  shows "menu_step U s =
     (let s1 = chosen s rest; choice = strip U l in
      if choice = [] \<or> choice = str ''4'' then (Inr Exited, print Out_shutdown s1)
      else if choice = str ''1'' then
        (case add_order U s1 of
           (Inl e, s2) \<Rightarrow> (Inl e, s2)
         | (Inr result, s2) \<Rightarrow> (Inr Running, print Out_rule (print (Out_result result) s2)))
      else if choice = str ''2'' then
        (Inr Running, print_order_report (orders s1) Title_report s1)
      else if choice = str ''3'' then
        (case process_order U s1 of
           (Inl e, s2) \<Rightarrow> (Inl e, s2)
         | (Inr (msg, served), s2) \<Rightarrow>
             let s3 = print (Out_result msg) s2;
                 s4 = (case served of
                         None \<Rightarrow> s3
                       | Some ord \<Rightarrow> print_order_report [ord] Title_served s3)
             in (Inr Running, print Out_rule s4))
      else (Inr Running, print Out_invalid_option s1))"
proof -
  have "stdin (print Out_menu s) = l # rest" using assms by simp
  from input_Cons [OF this, of Prompt_option]
  have "input Prompt_option (print Out_menu s) = (Inr l, chosen s rest)"
    by (simp add: print_def chosen_def)
  then show ?thesis by (simp add: menu_step_def Let_def)
qed

lemma chosen_frame [simp]:
  "orders (chosen s rest) = orders s" "files (chosen s rest) = files s"
  "stdin (chosen s rest) = rest"
  by (simp_all add: chosen_def)

text \<open>
  Claim C8. In a turn of the menu the line read decides the transition. A line that is
  empty after trimming, or that is \<open>4\<close>, prints the shutdown message and exits. Any other
  line never exits: an unrecognised line prints the message for an invalid option and
  stays running without reading further, \<open>2\<close> prints the report and stays running, and
  \<open>1\<close> and \<open>3\<close> stay running once their dialogue has returned. The dialogue does not
  return when standard input ends in the middle of it (\<open>EOFError\<close> ends the program) and,
  for \<open>3\<close>, when the output file is nested too deep to be parsed (\<open>RecursionError\<close> ends the
  program). After a turn that stays running the loop goes on with the next turn.
\<close>

theorem menu_step_transitions:
  assumes "stdin s = l # rest"
  shows
  "(strip U l = [] \<or> strip U l = str ''4'' \<longrightarrow>
      menu_step U s = (Inr Exited, print Out_shutdown (chosen s rest))) \<and>
   (strip U l \<noteq> [] \<and> strip U l \<noteq> str ''4'' \<longrightarrow>
      fst (menu_step U s) \<noteq> Inr Exited \<and>
      (fst (menu_step U s) = Inr Running \<or> fst (menu_step U s) = Inl EOFError \<or>
       (strip U l = str ''3'' \<and> files s OUTPUT_FILE = Some Too_deep \<and>
        fst (menu_step U s) = Inl RecursionError)) \<and>
      (strip U l = str ''1'' \<and> (\<exists>m. fst (add_order U (chosen s rest)) = Inr m) \<longrightarrow>
         fst (menu_step U s) = Inr Running) \<and>
      (strip U l = str ''2'' \<longrightarrow> fst (menu_step U s) = Inr Running) \<and>
      (strip U l = str ''3'' \<and> (orders s = [] \<or> rest \<noteq> []) \<and>
       files s OUTPUT_FILE \<noteq> Some Too_deep \<longrightarrow>
         fst (menu_step U s) = Inr Running) \<and>
      (strip U l \<noteq> str ''1'' \<and> strip U l \<noteq> str ''2'' \<and> strip U l \<noteq> str ''3'' \<longrightarrow>
         menu_step U s = (Inr Running, print Out_invalid_option (chosen s rest))) \<and>
      (\<forall>s'. menu_step U s = (Inr Running, s') \<longrightarrow> menu_loop U s = menu_loop U s'))"
proof (intro conjI impI allI)
  assume "strip U l = [] \<or> strip U l = str ''4''"
  then show "menu_step U s = (Inr Exited, print Out_shutdown (chosen s rest))"
    by (auto simp: menu_step_Cons [OF assms] Let_def)
next
  assume a: "strip U l \<noteq> [] \<and> strip U l \<noteq> str ''4''"
  obtain r1 s1 where ao: "add_order U (chosen s rest) = (r1, s1)"
    by (cases "add_order U (chosen s rest)")
  obtain r2 s2 where po: "process_order U (chosen s rest) = (r2, s2)"
    by (cases "process_order U (chosen s rest)")
  from a show "fst (menu_step U s) \<noteq> Inr Exited"
    by (auto simp: menu_step_Cons [OF assms] Let_def ao po split: sum.splits prod.splits)
  from a show "fst (menu_step U s) = Inr Running \<or> fst (menu_step U s) = Inl EOFError \<or>
       (strip U l = str ''3'' \<and> files s OUTPUT_FILE = Some Too_deep \<and>
        fst (menu_step U s) = Inl RecursionError)"
    using add_order_raises [of U "chosen s rest"] process_order_raises [of U "chosen s rest"]
    by (auto simp: menu_step_Cons [OF assms] Let_def ao po split: sum.splits prod.splits)
next
  assume a: "strip U l \<noteq> [] \<and> strip U l \<noteq> str ''4''"
    and b: "strip U l = str ''1'' \<and> (\<exists>m. fst (add_order U (chosen s rest)) = Inr m)"
  then show "fst (menu_step U s) = Inr Running"
    by (auto simp: menu_step_Cons [OF assms] Let_def split: sum.splits prod.splits)
next
  assume "strip U l \<noteq> [] \<and> strip U l \<noteq> str ''4''" "strip U l = str ''2''"
  then show "fst (menu_step U s) = Inr Running"
    by (simp add: menu_step_Cons [OF assms] Let_def options_differ)
next
  assume a: "strip U l \<noteq> [] \<and> strip U l \<noteq> str ''4''"
    and b: "strip U l = str ''3'' \<and> (orders s = [] \<or> rest \<noteq> []) \<and>
            files s OUTPUT_FILE \<noteq> Some Too_deep"
  then have "orders (chosen s rest) = [] \<or> stdin (chosen s rest) \<noteq> []"
    and "files (chosen s rest) OUTPUT_FILE \<noteq> Some Too_deep" by simp_all
  from process_order_returns [OF this, of U] b
  show "fst (menu_step U s) = Inr Running"
    by (auto simp: menu_step_Cons [OF assms] Let_def options_differ split: sum.splits prod.splits)
next
  assume "strip U l \<noteq> [] \<and> strip U l \<noteq> str ''4''"
    and "strip U l \<noteq> str ''1'' \<and> strip U l \<noteq> str ''2'' \<and> strip U l \<noteq> str ''3''"
  then show "menu_step U s = (Inr Running, print Out_invalid_option (chosen s rest))"
    by (simp add: menu_step_Cons [OF assms] Let_def)
next
  fix s'
  assume "menu_step U s = (Inr Running, s')"
  then show "menu_loop U s = menu_loop U s'"
    by (simp add: menu_loop.simps [of U s])
qed

theorem menu_step_transitions_witness:
  "fst (menu_step no_tables
     \<lparr>stdin = [str '' 4 '', str ''1''], stdout = [], files = Map.empty, orders = []\<rparr>)
     = Inr Exited \<and>
   stdout (snd (menu_step no_tables
     \<lparr>stdin = [str '' 4 '', str ''1''], stdout = [], files = Map.empty, orders = []\<rparr>))
     = [Out_menu, Out_prompt Prompt_option, Out_shutdown] \<and>
   fst (menu_step no_tables
     \<lparr>stdin = [str ''  ''], stdout = [], files = Map.empty, orders = []\<rparr>)
     = Inr Exited \<and>
   fst (menu_step no_tables
     \<lparr>stdin = [str ''5''], stdout = [], files = Map.empty, orders = []\<rparr>)
     = Inr Running \<and>
   stdout (snd (menu_step no_tables
     \<lparr>stdin = [str ''5''], stdout = [], files = Map.empty, orders = []\<rparr>))
     = [Out_menu, Out_prompt Prompt_option, Out_invalid_option] \<and>
   fst (menu_step no_tables
     \<lparr>stdin = [str ''2''], stdout = [], files = Map.empty, orders = []\<rparr>)
     = Inr Running \<and>
   fst (menu_step no_tables
     \<lparr>stdin = [str ''3''], stdout = [], files = Map.empty, orders = []\<rparr>)
     = Inr Running"
proof -
  let ?s4 = "\<lparr>stdin = [str '' 4 '', str ''1''], stdout = [], files = Map.empty, orders = []\<rparr>"
  let ?s0 = "\<lparr>stdin = [str ''  ''], stdout = [], files = Map.empty, orders = []\<rparr>"
  let ?s5 = "\<lparr>stdin = [str ''5''], stdout = [], files = Map.empty, orders = []\<rparr>"
  let ?s2 = "\<lparr>stdin = [str ''2''], stdout = [], files = Map.empty, orders = []\<rparr>"
  let ?s3 = "\<lparr>stdin = [str ''3''], stdout = [], files = Map.empty, orders = []\<rparr>"
  have e: "strip no_tables (str '' 4 '') = str ''4''" "strip no_tables (str ''  '') = []"
    "strip no_tables (str ''5'') = str ''5''" "strip no_tables (str ''2'') = str ''2''"
    "strip no_tables (str ''3'') = str ''3''"
    by (simp_all add: text_defs)
  have n: "str ''5'' \<noteq> []" "str ''5'' \<noteq> str ''4''" "str ''5'' \<noteq> str ''1''"
    "str ''5'' \<noteq> str ''2''" "str ''5'' \<noteq> str ''3''"
    "str ''2'' \<noteq> []" "str ''2'' \<noteq> str ''4''" "str ''3'' \<noteq> []" "str ''3'' \<noteq> str ''4''"
    by (simp_all add: str_def)
  have a: "menu_step no_tables ?s4 = (Inr Exited, print Out_shutdown (chosen ?s4 [str ''1'']))"
    using menu_step_transitions [of ?s4 "str '' 4 ''" "[str ''1'']" no_tables] e by simp
  have b: "fst (menu_step no_tables ?s0) = Inr Exited"
    using menu_step_transitions [of ?s0 "str ''  ''" "[]" no_tables] e by simp
  have c: "menu_step no_tables ?s5 = (Inr Running, print Out_invalid_option (chosen ?s5 []))"
    using menu_step_transitions [of ?s5 "str ''5''" "[]" no_tables] e n by simp
  have d: "fst (menu_step no_tables ?s2) = Inr Running"
    using menu_step_transitions [of ?s2 "str ''2''" "[]" no_tables] e n by simp
  have f: "fst (menu_step no_tables ?s3) = Inr Running"
    using menu_step_transitions [of ?s3 "str ''3''" "[]" no_tables] e n by simp
  from a b c d f show ?thesis by (simp add: print_def chosen_def)
qed


end
